theory Spec2Isabelle
  imports Complex_Main "HOL-Library.List_Lexorder"
begin

section \<open>Python values\<close>

text \<open>
  A Python \<open>str\<close> is a sequence of Unicode code points; it is modelled as a list of
  natural numbers, one per code point, so that \<open>len\<close>, slicing, \<open>strip\<close> and
  \<open>replace\<close> count what Python counts. \<open>lit\<close> turns an ASCII literal into such a
  string. Lists of strings compare lexicographically by code point, as Python's
  \<open>str\<close> and tuples of \<open>str\<close> do.
\<close>

type_synonym pystr = "nat list"

definition lit :: "string \<Rightarrow> pystr" where
  "lit s = map of_char s"

datatype py_error = IndexError | KeyError | TypeError | ValueError

text \<open>
  \<open>xs[i]\<close>: an index from \<open>-len(xs)\<close> to \<open>-1\<close> counts from the end, any index
  outside \<open>-len(xs) .. len(xs)-1\<close> raises \<open>IndexError\<close>.
\<close>

definition py_get :: "'a list \<Rightarrow> int \<Rightarrow> py_error + 'a" where
  "py_get xs i =
     (if 0 \<le> i \<and> i < int (length xs) then Inr (xs ! nat i)
      else if i < 0 \<and> - int (length xs) \<le> i then Inr (xs ! nat (int (length xs) + i))
      else Inl IndexError)"

text \<open>
  \<open>str.isspace\<close> of one code point, which is also what \<open>str.strip()\<close> removes and
  what \<open>\s\<close> matches in a \<open>str\<close> pattern: the ASCII controls 9-13 and 28-31, the
  space, NEL, NBSP and the Unicode space separators.
\<close>

definition is_space :: "nat \<Rightarrow> bool" where
  "is_space c \<longleftrightarrow>
     (9 \<le> c \<and> c \<le> 13) \<or> (28 \<le> c \<and> c \<le> 32) \<or> c = 133 \<or> c = 160 \<or> c = 5760 \<or>
     (8192 \<le> c \<and> c \<le> 8202) \<or> c = 8232 \<or> c = 8233 \<or> c = 8239 \<or> c = 8287 \<or> c = 12288"

definition lstrip :: "pystr \<Rightarrow> pystr" where
  "lstrip s = dropWhile is_space s"

definition rstrip :: "pystr \<Rightarrow> pystr" where
  "rstrip s = rev (dropWhile is_space (rev s))"

definition strip :: "pystr \<Rightarrow> pystr" where
  "strip s = rstrip (lstrip s)"

text \<open>
  \<open>is_blank(s)\<close>: \<open>s is None or str(s).strip() == ""\<close>. The cells of a grid read by
  \<open>csv.reader\<close> are strings, so the \<open>None\<close> case does not arise for them.
\<close>

definition is_blank :: "pystr \<Rightarrow> bool" where
  "is_blank s \<longleftrightarrow> strip s = []"

type_synonym grid = "pystr list list"

text \<open>\<open>grid[r][c]\<close>, with both index checks.\<close>

definition cell :: "grid \<Rightarrow> int \<Rightarrow> int \<Rightarrow> py_error + pystr" where
  "cell grid r c = (case py_get grid r of Inl e \<Rightarrow> Inl e | Inr row \<Rightarrow> py_get row c)"

section \<open>Section detection (rateBuildUp/rbuSpace.py)\<close>

text \<open>
  \<open>consecutive_blank_headers_in_col\<close>: the number of blank cells of column \<open>col\<close>
  among the rows \<open>0 .. min(header_rows, len(grid)) - 1\<close>.
\<close>

fun count_blank_at :: "pystr list list \<Rightarrow> int \<Rightarrow> py_error + int" where
  "count_blank_at [] col = Inr 0"
| "count_blank_at (row # rows) col =
     (case py_get row col of
        Inl e \<Rightarrow> Inl e
      | Inr s \<Rightarrow>
          (case count_blank_at rows col of
             Inl e \<Rightarrow> Inl e
           | Inr n \<Rightarrow> Inr (if is_blank s then n + 1 else n)))"

definition consecutive_blank_headers_in_col :: "grid \<Rightarrow> int \<Rightarrow> int \<Rightarrow> py_error + int" where
  "consecutive_blank_headers_in_col grid col header_rows =
     count_blank_at (take (nat (min header_rows (int (length grid)))) grid) col"

text \<open>
  \<open>column_has_any_data\<close>: the loop \<open>for r in range(data_start_row, rows)\<close>, with
  the loop variable as third argument.
\<close>

function column_has_any_data :: "grid \<Rightarrow> int \<Rightarrow> int \<Rightarrow> py_error + bool" where
  "column_has_any_data grid col r =
     (if r < int (length grid) then
        (case cell grid r col of
           Inl e \<Rightarrow> Inl e
         | Inr s \<Rightarrow> if \<not> is_blank s then Inr True else column_has_any_data grid col (r + 1))
      else Inr False)"
  by pat_completeness auto
termination
  by (relation "measure (\<lambda>(grid, col, r). nat (int (length grid) - r))") auto

declare column_has_any_data.simps [simp del]

text \<open>
  The inner loop of \<open>map_section_labels_by_col\<close> (\<open>while c2 < width\<close>): it returns
  the column at which it stopped and the updated section map.
\<close>

function fill_run ::
  "grid \<Rightarrow> int \<Rightarrow> int \<Rightarrow> int \<Rightarrow> int \<Rightarrow> pystr \<Rightarrow> (int \<rightharpoonup> pystr) \<Rightarrow> int
    \<Rightarrow> py_error + (int \<times> (int \<rightharpoonup> pystr))" where
  "fill_run grid header_rows data_start_row min_blank_sep width label sec_map c2 =
     (if c2 < width then
        (case consecutive_blank_headers_in_col grid c2 header_rows of
           Inl e \<Rightarrow> Inl e
         | Inr n \<Rightarrow>
             (case column_has_any_data grid c2 data_start_row of
                Inl e \<Rightarrow> Inl e
              | Inr d \<Rightarrow>
                  (let hard_sep = (n \<ge> min_blank_sep); empty_col = (\<not> d) in
                   if hard_sep \<or> empty_col then Inr (c2, sec_map)
                   else
                     (case column_has_any_data grid c2 data_start_row of
                        Inl e \<Rightarrow> Inl e
                      | Inr d2 \<Rightarrow>
                          fill_run grid header_rows data_start_row min_blank_sep width label
                            (if d2 then sec_map(c2 \<mapsto> label) else sec_map) (c2 + 1)))))
      else Inr (c2, sec_map))"
  by pat_completeness auto
termination
  by (relation "measure (\<lambda>(grid, hr, ds, s, width, label, m, c2). nat (width - c2))") auto

declare fill_run.simps [simp del]

lemma fill_run_ge:
  "fill_run grid hr ds s width label m c = Inr (c2, m') \<Longrightarrow> c \<le> c2"
proof (induction grid hr ds s width label m c rule: fill_run.induct)
  case (1 grid hr ds s width label m c)
  note unf = fill_run.simps [of grid hr ds s width label m c]
  show ?case
  proof (cases "c < width")
    case False
    with "1.prems" show ?thesis by (simp add: unf)
  next
    case True
    from "1.prems" True obtain n d where
      n: "consecutive_blank_headers_in_col grid c hr = Inr n" and
      d: "column_has_any_data grid c ds = Inr d"
      by (auto simp: unf split: sum.splits)
    show ?thesis
    proof (cases "n \<ge> s \<or> \<not> d")
      case True
      with "1.prems" \<open>c < width\<close> n d show ?thesis by (simp add: unf)
    next
      case False
      with "1.prems" \<open>c < width\<close> n d
      have "fill_run grid hr ds s width label (if d then m(c \<mapsto> label) else m) (c + 1)
              = Inr (c2, m')"
        by (simp add: unf)
      with "1.IH" [OF \<open>c < width\<close> n d refl refl False d] have "c + 1 \<le> c2"
        by blast
      then show ?thesis by simp
    qed
  qed
qed

text \<open>
  The cell of the section row: \<open>grid[section_row][c] if section_row < len(grid) else ""\<close>.
\<close>

definition section_cell :: "grid \<Rightarrow> int \<Rightarrow> int \<Rightarrow> py_error + pystr" where
  "section_cell grid section_row c =
     (if section_row < int (length grid) then cell grid section_row c else Inr [])"

text \<open>The outer loop of \<open>map_section_labels_by_col\<close> (\<open>while c < width\<close>).\<close>

function section_scan ::
  "grid \<Rightarrow> int \<Rightarrow> int \<Rightarrow> int \<Rightarrow> int \<Rightarrow> int \<Rightarrow> (int \<rightharpoonup> pystr) \<Rightarrow> int
    \<Rightarrow> py_error + (int \<rightharpoonup> pystr)" where
  "section_scan grid section_row header_rows data_start_row min_blank_sep width sec_map c =
     (if c < width then
        (case section_cell grid section_row c of
           Inl e \<Rightarrow> Inl e
         | Inr cl \<Rightarrow>
             if is_blank cl then
               section_scan grid section_row header_rows data_start_row min_blank_sep width
                 sec_map (c + 1)
             else
               (case fill_run grid header_rows data_start_row min_blank_sep width (strip cl)
                       sec_map c of
                  Inl e \<Rightarrow> Inl e
                | Inr (c2, sec_map') \<Rightarrow>
                    section_scan grid section_row header_rows data_start_row min_blank_sep width
                      sec_map' (max (c2 + 1) c2)))
      else Inr sec_map)"
  by pat_completeness auto
termination
proof (relation "measure (\<lambda>(grid, sr, hr, ds, s, width, m, c). nat (width - c))", goal_cases)
  case 1
  show ?case by simp
next
  case (2 grid sr hr ds s width m c cl)
  then show ?case by simp
next
  case (3 grid sr hr ds s width m c cl x c2 m')
  then have "c \<le> c2" using fill_run_ge by metis
  with 3 show ?case by simp
qed

declare section_scan.simps [simp del]

definition map_section_labels_by_col ::
  "grid \<Rightarrow> int \<Rightarrow> int \<Rightarrow> int \<Rightarrow> int \<Rightarrow> py_error + (int \<rightharpoonup> pystr)" where
  "map_section_labels_by_col grid section_row header_rows data_start_row min_blank_sep =
     section_scan grid section_row header_rows data_start_row min_blank_sep
       (case grid of [] \<Rightarrow> 0 | row0 # _ \<Rightarrow> int (length row0)) Map.empty 0"

section \<open>Table blocks by the space technique (rateBuildUp/rbuSpace.py)\<close>

text \<open>\<open>any(not is_blank(grid[r][c]) for c in cols)\<close>, which stops at the first hit.\<close>

fun any_non_blank :: "grid \<Rightarrow> int \<Rightarrow> int list \<Rightarrow> py_error + bool" where
  "any_non_blank grid r [] = Inr False"
| "any_non_blank grid r (c # cs) =
     (case cell grid r c of
        Inl e \<Rightarrow> Inl e
      | Inr s \<Rightarrow> if \<not> is_blank s then Inr True else any_non_blank grid r cs)"

text \<open>
  \<open>first_non_empty_row_in_cols\<close>: the loop \<open>for r in range(start_row, rows)\<close>, with
  the loop variable as third argument; \<open>None\<close> when no row qualifies.
\<close>

function first_non_empty_row_in_cols :: "grid \<Rightarrow> int list \<Rightarrow> int \<Rightarrow> py_error + int option" where
  "first_non_empty_row_in_cols grid cols r =
     (if r < int (length grid) then
        (case any_non_blank grid r cols of
           Inl e \<Rightarrow> Inl e
         | Inr hit \<Rightarrow> if hit then Inr (Some r) else first_non_empty_row_in_cols grid cols (r + 1))
      else Inr None)"
  by pat_completeness auto
termination
  by (relation "measure (\<lambda>(grid, cols, r). nat (int (length grid) - r))") auto

declare first_non_empty_row_in_cols.simps [simp del]

text \<open>\<open>xs.index(x)\<close> for an \<open>x\<close> that occurs in \<open>xs\<close>: the first position.\<close>

definition py_index :: "int list \<Rightarrow> int \<Rightarrow> int" where
  "py_index xs x = int (length (takeWhile (\<lambda>y. y \<noteq> x) xs))"

text \<open>
  The \<open>for c in sorted_cols\<close> loop of \<open>right_boundary_in_row_until_empty_col\<close>;
  \<open>boundary\<close> is the value set before the loop (\<open>sorted_cols[-1]\<close>).
\<close>

fun boundary_scan ::
  "grid \<Rightarrow> int \<Rightarrow> int list \<Rightarrow> int \<Rightarrow> int \<Rightarrow> bool \<Rightarrow> int list \<Rightarrow> py_error + int" where
  "boundary_scan grid row sorted_cols start_col boundary started [] = Inr boundary"
| "boundary_scan grid row sorted_cols start_col boundary started (c # cs) =
     (let started' = (started \<or> c = start_col) in
      if \<not> started' then boundary_scan grid row sorted_cols start_col boundary started' cs
      else
        (case cell grid row c of
           Inl e \<Rightarrow> Inl e
         | Inr s \<Rightarrow>
             if is_blank s then
               (let i = py_index sorted_cols c in
                if i > 0 then py_get sorted_cols (i - 1) else Inr c)
             else boundary_scan grid row sorted_cols start_col boundary started' cs))"

definition right_boundary_in_row_until_empty_col ::
  "grid \<Rightarrow> int \<Rightarrow> int list \<Rightarrow> int \<Rightarrow> py_error + int" where
  "right_boundary_in_row_until_empty_col grid row cols start_col =
     (let sorted_cols = sort cols in
      case (if start_col \<in> set sorted_cols then Inr start_col else py_get sorted_cols 0) of
        Inl e \<Rightarrow> Inl e
      | Inr start_col' \<Rightarrow>
          (case py_get sorted_cols (- 1) of
             Inl e \<Rightarrow> Inl e
           | Inr boundary \<Rightarrow>
               boundary_scan grid row sorted_cols start_col' boundary False sorted_cols))"

text \<open>\<open>all(is_blank(grid[rr][c]) for c in range(left, right + 1))\<close>, stopping at the first miss.\<close>

fun all_blank :: "grid \<Rightarrow> int \<Rightarrow> int list \<Rightarrow> py_error + bool" where
  "all_blank grid rr [] = Inr True"
| "all_blank grid rr (c # cs) =
     (case cell grid rr c of
        Inl e \<Rightarrow> Inl e
      | Inr s \<Rightarrow> if is_blank s then all_blank grid rr cs else Inr False)"

text \<open>
  The inner loop of \<open>find_table_blocks_in_section\<close>:
  \<open>while rr < rows and not all(...): rr += 1\<close>; it returns the final \<open>rr\<close>.
\<close>

function block_end :: "grid \<Rightarrow> int \<Rightarrow> int \<Rightarrow> int \<Rightarrow> py_error + int" where
  "block_end grid left right rr =
     (if rr < int (length grid) then
        (case all_blank grid rr [left..right] of
           Inl e \<Rightarrow> Inl e
         | Inr blank \<Rightarrow> if \<not> blank then block_end grid left right (rr + 1) else Inr rr)
      else Inr rr)"
  by pat_completeness auto
termination
  by (relation "measure (\<lambda>(grid, left, right, rr). nat (int (length grid) - rr))") auto

declare block_end.simps [simp del]

text \<open>\<open>min(xs)\<close> of a non-empty list.\<close>

definition py_min :: "int list \<Rightarrow> int" where
  "py_min xs = fold min (tl xs) (hd xs)"

text \<open>
  A block is the tuple \<open>(top_row, bottom_row, left_col, right_col)\<close>; the row
  the source calls \<open>top\<close> is \<open>top_row\<close> here. The
  \<open>while True\<close> loop of \<open>find_table_blocks_in_section\<close> has no bound of its own: it
  leaves only when no non-empty row is found from \<open>r\<close> on. It is a partial function;
  \<open>None\<close> is the run that never leaves the loop.
\<close>

type_synonym block = "int \<times> int \<times> int \<times> int"

partial_function (option) find_blocks_loop ::
  "grid \<Rightarrow> int list \<Rightarrow> block list \<Rightarrow> int \<Rightarrow> (py_error + block list) option" where
  "find_blocks_loop grid section_cols blocks r =
     (case first_non_empty_row_in_cols grid section_cols r of
        Inl e \<Rightarrow> Some (Inl e)
      | Inr None \<Rightarrow> Some (Inr blocks)
      | Inr (Some top_row) \<Rightarrow>
          (let left = py_min section_cols in
           case right_boundary_in_row_until_empty_col grid top_row section_cols left of
             Inl e \<Rightarrow> Some (Inl e)
           | Inr right \<Rightarrow>
               (case block_end grid left right top_row of
                  Inl e \<Rightarrow> Some (Inl e)
                | Inr rr \<Rightarrow>
                    (let bottom = rr - 1 in
                     find_blocks_loop grid section_cols (blocks @ [(top_row, bottom, left, right)])
                       (bottom + 1)))))"

declare find_blocks_loop.simps [code]

definition find_table_blocks_in_section ::
  "grid \<Rightarrow> int list \<Rightarrow> int \<Rightarrow> (py_error + block list) option" where
  "find_table_blocks_in_section grid section_cols section_row =
     (if section_cols = [] then Some (Inr [])
      else find_blocks_loop grid section_cols [] (section_row + 1))"

text \<open>The blankness pattern of a grid: its shape, and which cells are blank.\<close>

definition blank_pattern :: "grid \<Rightarrow> bool list list" where
  "blank_pattern grid = map (map is_blank) grid"

text \<open>
  Two grids for the examples: the second replaces the date-window token of the first by
  an ordinary label and leaves every other cell alone.
\<close>

definition grid_dates :: grid where
  "grid_dates =
     [[lit ''Financial'', lit ''''],
      [lit ''07/27-06/28'', lit ''Rx''],
      [lit ''1'', lit ''2''],
      [lit '''', lit '' ''],
      [lit ''3'', lit '''']]"

definition grid_labels :: grid where
  "grid_labels =
     [[lit ''Financial'', lit ''''],
      [lit ''Base'', lit ''Rx''],
      [lit ''1'', lit ''2''],
      [lit '''', lit '' ''],
      [lit ''3'', lit '''']]"

text \<open>
  Whether column \<open>c2\<close> ends a forward-fill: the disjunction \<open>hard_sep or empty_col\<close>
  of \<open>map_section_labels_by_col\<close>, with the errors of its two calls.
\<close>

definition run_stops :: "grid \<Rightarrow> int \<Rightarrow> int \<Rightarrow> int \<Rightarrow> int \<Rightarrow> py_error + bool" where
  "run_stops grid header_rows data_start_row min_blank_sep c2 =
     (case consecutive_blank_headers_in_col grid c2 header_rows of
        Inl e \<Rightarrow> Inl e
      | Inr n \<Rightarrow>
          (case column_has_any_data grid c2 data_start_row of
             Inl e \<Rightarrow> Inl e
           | Inr d \<Rightarrow> Inr (n \<ge> min_blank_sep \<or> \<not> d)))"

text \<open>
  Three grids with a section row on top. In \<open>grid_sections\<close> column 3 has three blank
  header cells; in \<open>grid_wide\<close> the section row is blank from column 1 on and every
  other cell is filled; in \<open>grid_sep\<close> the section row has no blank cell and column 1
  has two blank header cells.
\<close>

definition grid_sections :: grid where
  "grid_sections =
     [[lit ''A'', lit '''', lit '''', lit '''', lit ''B''],
      [lit ''g'', lit ''g'', lit ''h'', lit '''', lit ''k''],
      [lit ''p'', lit ''q'', lit ''r'', lit '''', lit ''s''],
      [lit ''1'', lit ''2'', lit ''3'', lit ''4'', lit ''5'']]"

definition grid_wide :: grid where
  "grid_wide =
     [[lit ''A'', lit '''', lit '''', lit '''', lit ''''],
      [lit ''g'', lit ''g'', lit ''h'', lit ''h'', lit ''k''],
      [lit ''1'', lit ''2'', lit ''3'', lit ''4'', lit ''5'']]"

definition grid_sep :: grid where
  "grid_sep =
     [[lit ''A'', lit ''B''],
      [lit ''g'', lit ''''],
      [lit ''p'', lit ''''],
      [lit ''1'', lit ''2'']]"

section \<open>Text normalisation (compareRateBuildUp.py, rates.py)\<close>

text \<open>
  What Python's Unicode database says about code points outside ASCII is a table of the
  interpreter, not of this program, so it is a parameter: the lowercase mapping of the
  code point at a position of a string (\<open>str.lower\<close> looks at the context for the
  final sigma), \<open>str.isalpha\<close>, the value of a decimal digit (which is also what
  \<open>\d\<close> matches), and the word characters of \<open>\b\<close>. For ASCII the functions
  below fix the answer themselves. \<open>ascii_tables\<close> is the table with no
  entry beyond ASCII, for examples whose text is ASCII.
\<close>

record unicode_tables =
  uc_lower :: "pystr \<Rightarrow> nat \<Rightarrow> pystr"
  uc_alpha :: "nat \<Rightarrow> bool"
  uc_decimal :: "nat \<Rightarrow> nat option"
  uc_word :: "nat \<Rightarrow> bool"

definition ascii_tables :: unicode_tables where
  "ascii_tables =
     \<lparr>uc_lower = (\<lambda>s i. [s ! i]), uc_alpha = (\<lambda>c. False), uc_decimal = (\<lambda>c. None),
      uc_word = (\<lambda>c. False)\<rparr>"

definition ascii_lower :: "nat \<Rightarrow> nat" where
  "ascii_lower c = (if 65 \<le> c \<and> c \<le> 90 then c + 32 else c)"

definition py_lower :: "unicode_tables \<Rightarrow> pystr \<Rightarrow> pystr" where
  "py_lower U s =
     concat (map (\<lambda>i. if s ! i < 128 then [ascii_lower (s ! i)] else uc_lower U s i) [0..<length s])"

text \<open>\<open>s.replace(a, b)\<close> for two single characters.\<close>

definition replace_char :: "nat \<Rightarrow> nat \<Rightarrow> pystr \<Rightarrow> pystr" where
  "replace_char a b s = map (\<lambda>c. if c = a then b else c) s"

text \<open>\<open>re.sub(r"\s+", " ", s)\<close>: every maximal run of whitespace becomes one space.\<close>

function collapse_ws :: "pystr \<Rightarrow> pystr" where
  "collapse_ws [] = []"
| "collapse_ws (c # cs) =
     (if is_space c then 32 # collapse_ws (dropWhile is_space cs) else c # collapse_ws cs)"
  by pat_completeness auto
termination
  by (relation "measure length") (auto simp: le_imp_less_Suc length_dropWhile_le)

text \<open>
  \<open>normalize_text\<close> of compareRateBuildUp.py: strip, turn the en dash (U+2013) and the
  em dash (U+2014) into \<open>-\<close>, collapse whitespace.
\<close>

definition normalize_text :: "pystr \<Rightarrow> pystr" where
  "normalize_text s = collapse_ws (replace_char 8212 45 (replace_char 8211 45 (strip s)))"

text \<open>
  \<open>clean_text\<close> and \<open>normalize_header\<close> of rates.py: drop the byte order mark
  (U+FEFF), strip, lowercase, and keep only \<open>a-z\<close> and \<open>0-9\<close>.
\<close>

definition clean_text :: "pystr \<Rightarrow> pystr" where
  "clean_text text = strip (filter (\<lambda>c. c \<noteq> 65279) text)"

definition normalize_header :: "unicode_tables \<Rightarrow> pystr \<Rightarrow> pystr" where
  "normalize_header U h =
     filter (\<lambda>c. (97 \<le> c \<and> c \<le> 122) \<or> (48 \<le> c \<and> c \<le> 57)) (py_lower U (clean_text h))"

text \<open>The two dash replacements as one map, and the characters a normalised header keeps.\<close>

definition dash :: "nat \<Rightarrow> nat" where
  "dash c = (if c = 8211 \<or> c = 8212 then 45 else c)"

definition header_char :: "nat \<Rightarrow> bool" where
  "header_char c \<longleftrightarrow> (97 \<le> c \<and> c \<le> 122) \<or> (48 \<le> c \<and> c \<le> 57)"

section \<open>Python floats\<close>

text \<open>
  A Python \<open>float\<close> is an IEEE 754 binary64 value. A finite one is modelled by the
  rational number it stands for (\<open>-0.0\<close> and \<open>0.0\<close>, which compare equal and which
  nothing here tells apart, are both \<open>Fin 0\<close>); the infinities and NaN are values of
  their own.
\<close>

datatype pyfloat = Fin rat | PInf | NInf | NaN

text \<open>The number of binary digits of a positive integer.\<close>

function bit_length :: "int \<Rightarrow> int" where
  "bit_length n = (if n \<le> 0 then 0 else bit_length (n div 2) + 1)"
  by pat_completeness auto
termination
  by (relation "measure nat") auto

declare bit_length.simps [simp del]

definition pow2 :: "int \<Rightarrow> rat" where
  "pow2 e = (if 0 \<le> e then 2 ^ nat e else 1 / 2 ^ nat (- e))"

text \<open>\<open>floor_log2 a d\<close> is the integer part of the binary logarithm of \<open>a / d\<close> (\<open>a, d > 0\<close>).\<close>

definition floor_log2 :: "int \<Rightarrow> int \<Rightarrow> int" where
  "floor_log2 a d =
     (if d \<le> a then bit_length (a div d) - 1
      else - bit_length ((d + a - 1) div a - 1))"

text \<open>\<open>n / d\<close> rounded to the nearest integer, a tie to the even one.\<close>

definition round_half_even :: "int \<Rightarrow> int \<Rightarrow> int" where
  "round_half_even n d =
     (let q = n div d; r = n mod d in
      if 2 * r < d then q else if d < 2 * r then q + 1 else if even q then q else q + 1)"

text \<open>
  The binary64 value nearest to \<open>n / d\<close> (\<open>d > 0\<close>), ties to even: 53 significant bits
  at exponent \<open>e\<close>, the exponent held at -1022 for subnormal numbers, and an infinity
  when the rounded value reaches \<open>2^1024\<close>. It is the rounding of \<open>float(str)\<close> and of
  every float operation.
\<close>

definition round_ratio :: "int \<Rightarrow> int \<Rightarrow> pyfloat" where
  "round_ratio n d =
     (if n = 0 then Fin 0
      else
        (let a = \<bar>n\<bar>;
             e = max (floor_log2 a d) (- 1022);
             m = (if e \<le> 52 then round_half_even (a * 2 ^ nat (52 - e)) d
                  else round_half_even a (d * 2 ^ nat (e - 52)))
         in if 1023 < e \<or> (e = 1023 \<and> m = 2 ^ 53) then (if 0 < n then PInf else NInf)
            else Fin (of_int (if 0 < n then m else - m) * pow2 (e - 52))))"

definition round_binary64 :: "rat \<Rightarrow> pyfloat" where
  "round_binary64 x = (case quotient_of x of (n, d) \<Rightarrow> round_ratio n d)"

text \<open>
  \<open>float(s)\<close> for a string. CPython first maps every non-ASCII whitespace to a space and
  every non-ASCII decimal digit to its ASCII digit (any other non-ASCII character makes
  the conversion fail), strips the whitespace of the C locale, checks and drops the
  underscores (allowed only between two digits), and then reads an optional sign
  followed by \<open>inf\<close>, \<open>infinity\<close> or \<open>nan\<close> in any case, or by a decimal number with
  an optional fraction and exponent. \<open>None\<close> is \<open>ValueError\<close>.
\<close>

definition is_ascii_digit :: "nat \<Rightarrow> bool" where
  "is_ascii_digit c \<longleftrightarrow> 48 \<le> c \<and> c \<le> 57"

definition c_isspace :: "nat \<Rightarrow> bool" where
  "c_isspace c \<longleftrightarrow> (9 \<le> c \<and> c \<le> 13) \<or> c = 32"

fun to_ascii :: "unicode_tables \<Rightarrow> pystr \<Rightarrow> pystr option" where
  "to_ascii U [] = Some []"
| "to_ascii U (c # cs) =
     (case (if c < 128 then Some c
            else if is_space c then Some 32
            else (case uc_decimal U c of
                    None \<Rightarrow> None
                  | Some d \<Rightarrow> if d < 10 then Some (48 + d) else None)) of
        None \<Rightarrow> None
      | Some a \<Rightarrow> (case to_ascii U cs of None \<Rightarrow> None | Some as \<Rightarrow> Some (a # as)))"

fun underscores_ok :: "nat \<Rightarrow> pystr \<Rightarrow> bool" where
  "underscores_ok prev [] = (prev \<noteq> 95)"
| "underscores_ok prev (c # cs) =
     (if c = 95 then is_ascii_digit prev \<and> underscores_ok c cs
      else if prev = 95 then is_ascii_digit c \<and> underscores_ok c cs
      else underscores_ok c cs)"

definition digits_value :: "pystr \<Rightarrow> nat" where
  "digits_value ds = fold (\<lambda>c n. 10 * n + (c - 48)) ds 0"

definition split_sign :: "pystr \<Rightarrow> bool \<times> pystr" where
  "split_sign s =
     (case s of
        [] \<Rightarrow> (False, [])
      | c # cs \<Rightarrow> if c = 45 then (True, cs) else if c = 43 then (False, cs) else (False, s))"

definition parse_exponent :: "pystr \<Rightarrow> int option" where
  "parse_exponent r =
     (case r of
        [] \<Rightarrow> Some 0
      | c # cs \<Rightarrow>
          if c = 101 \<or> c = 69 then
            (case split_sign cs of
               (neg, ds) \<Rightarrow>
                 if ds \<noteq> [] \<and> list_all is_ascii_digit ds
                 then Some (if neg then - int (digits_value ds) else int (digits_value ds))
                 else None)
          else None)"

definition parse_decimal :: "pystr \<Rightarrow> (int \<times> int) option" where
  "parse_decimal r =
     (let ip = takeWhile is_ascii_digit r;
          r1 = dropWhile is_ascii_digit r;
          fp = (case r1 of [] \<Rightarrow> [] | c # cs \<Rightarrow> if c = 46 then takeWhile is_ascii_digit cs else []);
          r2 = (case r1 of [] \<Rightarrow> [] | c # cs \<Rightarrow> if c = 46 then dropWhile is_ascii_digit cs else r1)
      in if ip = [] \<and> fp = [] then None
         else (case parse_exponent r2 of
                 None \<Rightarrow> None
               | Some ex \<Rightarrow>
                   (let m = int (digits_value (ip @ fp)); p = ex - int (length fp)
                    in Some (if 0 \<le> p then (m * 10 ^ nat p, 1) else (m, 10 ^ nat (- p))))))"

definition parse_float_text :: "pystr \<Rightarrow> pyfloat option" where
  "parse_float_text t =
     (case split_sign t of
        (neg, r) \<Rightarrow>
          (let low = map ascii_lower r in
           if low = lit ''inf'' \<or> low = lit ''infinity'' then Some (if neg then NInf else PInf)
           else if low = lit ''nan'' then Some NaN
           else (case parse_decimal r of
                   None \<Rightarrow> None
                 | Some (n, d) \<Rightarrow> Some (round_ratio (if neg then - n else n) d))))"

definition py_float :: "unicode_tables \<Rightarrow> pystr \<Rightarrow> pyfloat option" where
  "py_float U s =
     (case to_ascii U s of
        None \<Rightarrow> None
      | Some a \<Rightarrow>
          (let t = rev (dropWhile c_isspace (rev (dropWhile c_isspace a))) in
           if 95 \<in> set t then
             (if underscores_ok 0 t then parse_float_text (filter (\<lambda>c. c \<noteq> 95) t) else None)
           else parse_float_text t))"

section \<open>Key-based row comparison (rateBuildUp/codeWithRow.py)\<close>

text \<open>
  A Python \<open>dict\<close> keeps its keys in insertion order; where the keys are listed or
  iterated it is an association list with distinct keys. \<open>d[k] = v\<close> replaces the
  value in place or appends a new pair; \<open>d.setdefault(k, v)\<close> appends only.
\<close>

fun dict_set :: "('k \<times> 'v) list \<Rightarrow> 'k \<Rightarrow> 'v \<Rightarrow> ('k \<times> 'v) list" where
  "dict_set [] k v = [(k, v)]"
| "dict_set ((k', v') # d) k v = (if k' = k then (k, v) # d else (k', v') # dict_set d k v)"

definition dict_setdefault :: "('k \<times> 'v) list \<Rightarrow> 'k \<Rightarrow> 'v \<Rightarrow> ('k \<times> 'v) list" where
  "dict_setdefault d k v = (if k \<in> fst ` set d then d else d @ [(k, v)])"

definition KEY_COLUMNS :: "pystr list" where
  "KEY_COLUMNS = [lit ''Formulary'', lit ''NDC11'']"

text \<open>\<open>normalize(text)\<close>: \<open>(text or "").strip().lower()\<close>.\<close>

definition normalize_str :: "unicode_tables \<Rightarrow> pystr \<Rightarrow> pystr" where
  "normalize_str U text = py_lower U (strip text)"

text \<open>
  \<open>header_index_map\<close>: \<open>{normalize(h): i for i, h in enumerate(headers)}\<close>; a later
  header of the same normalised name takes the entry over. It is only looked up.
\<close>

definition header_index_map :: "unicode_tables \<Rightarrow> pystr list \<Rightarrow> (pystr \<rightharpoonup> nat)" where
  "header_index_map U headers =
     fold (\<lambda>(i, h) m. m(normalize_str U h \<mapsto> i)) (enumerate 0 headers) Map.empty"

text \<open>\<open>[hmap[k] for k in ks]\<close>: the first missing key raises \<open>KeyError\<close>.\<close>

fun lookup_all :: "(pystr \<rightharpoonup> nat) \<Rightarrow> pystr list \<Rightarrow> py_error + nat list" where
  "lookup_all hmap [] = Inr []"
| "lookup_all hmap (k # ks) =
     (case hmap k of
        None \<Rightarrow> Inl KeyError
      | Some i \<Rightarrow> (case lookup_all hmap ks of Inl e \<Rightarrow> Inl e | Inr js \<Rightarrow> Inr (i # js)))"

type_synonym row = "pystr list"

type_synonym rowkey = "pystr list"

text \<open>\<open>r[i] if i < len(r) else ""\<close> for an index that \<open>enumerate\<close> produced.\<close>

definition cell_or_empty :: "row \<Rightarrow> nat \<Rightarrow> pystr" where
  "cell_or_empty r i = (if i < length r then r ! i else [])"

text \<open>The key of a row: \<open>tuple((r[i] if i < len(r) else "").strip() for i in key_indexes)\<close>.\<close>

definition row_key :: "nat list \<Rightarrow> row \<Rightarrow> rowkey" where
  "row_key key_indexes r = map (\<lambda>i. strip (cell_or_empty r i)) key_indexes"

text \<open>
  The loop of \<open>build_row_map\<close> over the rows, with \<open>row_map\<close> and \<open>duplicates\<close> as
  they stand before the row.
\<close>

fun build_rows ::
  "nat list \<Rightarrow> row list \<Rightarrow> (rowkey \<times> row) list \<Rightarrow> rowkey list
    \<Rightarrow> (rowkey \<times> row) list \<times> rowkey list" where
  "build_rows key_indexes [] row_map duplicates = (row_map, duplicates)"
| "build_rows key_indexes (r # rs) row_map duplicates =
     (let key = row_key key_indexes r in
      if key \<in> fst ` set row_map then build_rows key_indexes rs row_map (duplicates @ [key])
      else build_rows key_indexes rs (row_map @ [(key, r)]) duplicates)"

definition build_row_map ::
  "unicode_tables \<Rightarrow> row list \<Rightarrow> pystr list \<Rightarrow> pystr list
    \<Rightarrow> py_error + ((rowkey \<times> row) list \<times> rowkey list)" where
  "build_row_map U rows headers key_cols =
     (case lookup_all (header_index_map U headers) (map (normalize_str U) key_cols) of
        Inl e \<Rightarrow> Inl e
      | Inr key_indexes \<Rightarrow> Inr (build_rows key_indexes rows [] []))"

text \<open>
  The three key lists of \<open>compare_key_based\<close>: \<open>sorted(keys1 - keys2)\<close>,
  \<open>sorted(keys2 - keys1)\<close> and \<open>sorted(keys1 & keys2)\<close>.
\<close>

definition missing_keys :: "(rowkey \<times> row) list \<Rightarrow> (rowkey \<times> row) list \<Rightarrow> rowkey list" where
  "missing_keys row_map1 row_map2 = sorted_list_of_set (set (map fst row_map1) - set (map fst row_map2))"

definition extra_keys :: "(rowkey \<times> row) list \<Rightarrow> (rowkey \<times> row) list \<Rightarrow> rowkey list" where
  "extra_keys row_map1 row_map2 = sorted_list_of_set (set (map fst row_map2) - set (map fst row_map1))"

definition shared_keys :: "(rowkey \<times> row) list \<Rightarrow> (rowkey \<times> row) list \<Rightarrow> rowkey list" where
  "shared_keys row_map1 row_map2 = sorted_list_of_set (set (map fst row_map1) \<inter> set (map fst row_map2))"

text \<open>
  The comparison of two rows of one key over the common headers; the accumulator is
  \<open>(match_count, mismatch_count, mismatches)\<close>.
\<close>

type_synonym cell_counts = "nat \<times> nat \<times> (rowkey \<times> pystr \<times> pystr \<times> pystr) list"

fun compare_cells ::
  "unicode_tables \<Rightarrow> (pystr \<rightharpoonup> nat) \<Rightarrow> (pystr \<rightharpoonup> nat) \<Rightarrow> rowkey \<Rightarrow> row \<Rightarrow> row \<Rightarrow> pystr list
    \<Rightarrow> cell_counts \<Rightarrow> py_error + cell_counts" where
  "compare_cells U hmap1 hmap2 key r1 r2 [] acc = Inr acc"
| "compare_cells U hmap1 hmap2 key r1 r2 (h # hs) (match_count, mismatch_count, mismatches) =
     (case hmap1 (normalize_str U h) of
        None \<Rightarrow> Inl KeyError
      | Some i1 \<Rightarrow>
          (case hmap2 (normalize_str U h) of
             None \<Rightarrow> Inl KeyError
           | Some i2 \<Rightarrow>
               (let v1 = cell_or_empty r1 i1; v2 = cell_or_empty r2 i2 in
                if v1 = v2 then
                  compare_cells U hmap1 hmap2 key r1 r2 hs
                    (match_count + 1, mismatch_count, mismatches)
                else
                  compare_cells U hmap1 hmap2 key r1 r2 hs
                    (match_count, mismatch_count + 1, mismatches @ [(key, h, v1, v2)]))))"

fun compare_keys ::
  "unicode_tables \<Rightarrow> (pystr \<rightharpoonup> nat) \<Rightarrow> (pystr \<rightharpoonup> nat) \<Rightarrow> (rowkey \<times> row) list
    \<Rightarrow> (rowkey \<times> row) list \<Rightarrow> pystr list \<Rightarrow> rowkey list \<Rightarrow> cell_counts
    \<Rightarrow> py_error + cell_counts" where
  "compare_keys U hmap1 hmap2 row_map1 row_map2 common_headers [] acc = Inr acc"
| "compare_keys U hmap1 hmap2 row_map1 row_map2 common_headers (key # keys) acc =
     (case map_of row_map1 key of
        None \<Rightarrow> Inl KeyError
      | Some r1 \<Rightarrow>
          (case map_of row_map2 key of
             None \<Rightarrow> Inl KeyError
           | Some r2 \<Rightarrow>
               (case compare_cells U hmap1 hmap2 key r1 r2 common_headers acc of
                  Inl e \<Rightarrow> Inl e
                | Inr acc' \<Rightarrow>
                    compare_keys U hmap1 hmap2 row_map1 row_map2 common_headers keys acc')))"

record comparison =
  cmp_matches :: nat
  cmp_mismatches :: nat
  cmp_missing_in_report :: "rowkey list"
  cmp_extra_in_report :: "rowkey list"
  cmp_duplicates_file1 :: "rowkey list"
  cmp_duplicates_file2 :: "rowkey list"
  cmp_mismatch_details :: "(rowkey \<times> pystr \<times> pystr \<times> pystr) list"
  cmp_common_keys :: nat

text \<open>
  \<open>compare_key_based\<close>; the fields of its result dictionary carry the prefix
  \<open>cmp_\<close>, and \<open>map1\<close>, \<open>map2\<close> are \<open>row_map1\<close>, \<open>row_map2\<close>.
\<close>

definition compare_key_based ::
  "unicode_tables \<Rightarrow> pystr list \<Rightarrow> row list \<Rightarrow> pystr list \<Rightarrow> row list \<Rightarrow> py_error + comparison" where
  "compare_key_based U headers1 data1 headers2 data2 =
     (let hmap1 = header_index_map U headers1;
          hmap2 = header_index_map U headers2;
          common_headers = filter (\<lambda>h. normalize_str U h \<in> dom hmap2) headers1
      in case build_row_map U data1 headers1 KEY_COLUMNS of
           Inl e \<Rightarrow> Inl e
         | Inr (row_map1, dup1) \<Rightarrow>
             (case build_row_map U data2 headers2 KEY_COLUMNS of
                Inl e \<Rightarrow> Inl e
              | Inr (row_map2, dup2) \<Rightarrow>
                  (case compare_keys U hmap1 hmap2 row_map1 row_map2 common_headers
                          (shared_keys row_map1 row_map2) (0, 0, []) of
                     Inl e \<Rightarrow> Inl e
                   | Inr (match_count, mismatch_count, mismatches) \<Rightarrow>
                       Inr \<lparr>cmp_matches = match_count,
                            cmp_mismatches = mismatch_count,
                            cmp_missing_in_report = missing_keys row_map1 row_map2,
                            cmp_extra_in_report = extra_keys row_map1 row_map2,
                            cmp_duplicates_file1 = dup1,
                            cmp_duplicates_file2 = dup2,
                            cmp_mismatch_details = mismatches,
                            cmp_common_keys = length (shared_keys row_map1 row_map2)\<rparr>)))"

section \<open>Key sets of the row-key comparison (rates.py)\<close>

text \<open>
  \<open>compare_by_row_key\<close> takes two dictionaries from row key (one string) to row and
  computes \<open>common_keys = set(map1) & set(map2)\<close>,
  \<open>extra_file1 = sorted(set(map1) - set(map2))\<close> and
  \<open>extra_file2 = sorted(set(map2) - set(map1))\<close>. Its loop over \<open>common_keys\<close> runs in
  the iteration order of a set of strings, which Python does not fix; only the three
  key sets are modelled.
\<close>

definition rk_common_keys :: "(pystr \<times> row) list \<Rightarrow> (pystr \<times> row) list \<Rightarrow> pystr set" where
  "rk_common_keys row_map1 row_map2 = set (map fst row_map1) \<inter> set (map fst row_map2)"

definition rk_extra_file1 :: "(pystr \<times> row) list \<Rightarrow> (pystr \<times> row) list \<Rightarrow> pystr list" where
  "rk_extra_file1 row_map1 row_map2 = sorted_list_of_set (set (map fst row_map1) - set (map fst row_map2))"

definition rk_extra_file2 :: "(pystr \<times> row) list \<Rightarrow> (pystr \<times> row) list \<Rightarrow> pystr list" where
  "rk_extra_file2 row_map1 row_map2 = sorted_list_of_set (set (map fst row_map2) - set (map fst row_map1))"

section \<open>Aggregation of records by key (rateBuildUp/rbuSpace.py)\<close>

text \<open>
  One extracted record; the keys of the source's dictionary carry the prefix \<open>rec_\<close>.
\<close>

record srecord =
  rec_source :: pystr
  rec_section :: pystr
  rec_group_path :: "pystr list"
  rec_channel :: pystr
  rec_metric :: pystr
  rec_date_window :: pystr
  rec_value_text :: pystr
  rec_value_num :: "pyfloat option"
  rec_row_index :: int
  rec_col_index :: int

type_synonym reckey = "pystr \<times> pystr list \<times> pystr \<times> pystr \<times> pystr"

definition key_tuple :: "srecord \<Rightarrow> reckey" where
  "key_tuple r =
     (rec_section r, rec_group_path r, rec_channel r, rec_metric r, rec_date_window r)"

text \<open>
  One entry of \<open>agg\<close>: the dictionaries \<open>values\<close> and \<open>texts\<close> from source to value,
  and \<open>meta\<close>, which repeats the key.
\<close>

record agg_entry =
  agg_values :: "(pystr \<times> pyfloat option) list"
  agg_texts :: "(pystr \<times> pystr) list"
  agg_meta :: reckey

text \<open>The body of the loop \<open>for rec in all_records\<close> of \<open>compare_records\<close>.\<close>

definition agg_add :: "srecord \<Rightarrow> (reckey \<times> agg_entry) list \<Rightarrow> (reckey \<times> agg_entry) list" where
  "agg_add r agg =
     (let k = key_tuple r;
          agg1 = (if k \<notin> fst ` set agg
                  then agg @ [(k, \<lparr>agg_values = [], agg_texts = [], agg_meta = k\<rparr>)]
                  else agg)
      in map (\<lambda>(k', e).
                if k' = k
                then (k', e\<lparr>agg_values := dict_set (agg_values e) (rec_source r) (rec_value_num r),
                            agg_texts := dict_set (agg_texts e) (rec_source r) (rec_value_text r)\<rparr>)
                else (k', e)) agg1)"

text \<open>The closing loop: every source of \<open>sources_in_order\<close> gets an entry.\<close>

definition fill_sources :: "pystr list \<Rightarrow> agg_entry \<Rightarrow> agg_entry" where
  "fill_sources sources_in_order e =
     fold (\<lambda>src v. v\<lparr>agg_values := dict_setdefault (agg_values v) src None,
                       agg_texts := dict_setdefault (agg_texts v) src []\<rparr>) sources_in_order e"

text \<open>
  \<open>compare_records\<close> of rbuSpace.py (compareRateBuildUp.py has a function of the same
  name, further down).
\<close>

definition compare_records_agg ::
  "srecord list \<Rightarrow> pystr list \<Rightarrow> (reckey \<times> agg_entry) list" where
  "compare_records_agg all_records sources_in_order =
     map (\<lambda>(k, e). (k, fill_sources sources_in_order e)) (fold agg_add all_records [])"

text \<open>
  Reading the aggregate: \<open>agg[k]["values"][src]\<close> and \<open>agg[k]["texts"][src]\<close>, \<open>None\<close>
  where the key or the source has no entry; and the records of one key and one source,
  in the order of the list.
\<close>

definition agg_value :: "(reckey \<times> agg_entry) list \<Rightarrow> reckey \<Rightarrow> pystr \<Rightarrow> pyfloat option option" where
  "agg_value agg k src = (case map_of agg k of None \<Rightarrow> None | Some e \<Rightarrow> map_of (agg_values e) src)"

definition agg_text :: "(reckey \<times> agg_entry) list \<Rightarrow> reckey \<Rightarrow> pystr \<Rightarrow> pystr option" where
  "agg_text agg k src = (case map_of agg k of None \<Rightarrow> None | Some e \<Rightarrow> map_of (agg_texts e) src)"

definition records_of :: "reckey \<Rightarrow> pystr \<Rightarrow> srecord list \<Rightarrow> srecord list" where
  "records_of k src recs = filter (\<lambda>r. key_tuple r = k \<and> rec_source r = src) recs"

text \<open>
  Example data: a header row with the two key columns, two files of rows (the third row
  of the first file repeats the key of its first row), and two records of one source
  with the same key and different values.
\<close>

definition ex_headers :: "pystr list" where
  "ex_headers = [lit ''Formulary'', lit ''NDC11'', lit ''Rate'']"

definition ex_data1 :: "row list" where
  "ex_data1 =
     [[lit ''A'', lit ''1'', lit ''x''],
      [lit ''B'', lit ''2'', lit ''y''],
      [lit ''A'', lit ''1 '', lit ''z'']]"

definition ex_data2 :: "row list" where
  "ex_data2 = [[lit ''C'', lit ''3'', lit ''w''], [lit ''B'', lit ''2'', lit ''y'']]"

definition rec_first :: srecord where
  "rec_first =
     \<lparr>rec_source = lit ''a.csv'', rec_section = lit ''Financial'',
      rec_group_path = [lit ''Rx'', lit ''Base''], rec_channel = lit ''Retail'',
      rec_metric = lit ''2027'', rec_date_window = lit ''2027'',
      rec_value_text = lit ''1'', rec_value_num = Some (Fin 1),
      rec_row_index = 3, rec_col_index = 1\<rparr>"

definition rec_second :: srecord where
  "rec_second =
     \<lparr>rec_source = lit ''a.csv'', rec_section = lit ''Financial'',
      rec_group_path = [lit ''Rx'', lit ''Base''], rec_channel = lit ''Retail'',
      rec_metric = lit ''2027'', rec_date_window = lit ''2027'',
      rec_value_text = lit ''2'', rec_value_num = Some (Fin 2),
      rec_row_index = 4, rec_col_index = 1\<rparr>"

section \<open>Record extraction by header rows (DataValidation_RBU/rbuSpace.py)\<close>

text \<open>
  \<open>is_number(x)\<close> and \<open>to_float(x)\<close>: \<open>float(str(x).replace(",", ""))\<close>, the first
  telling whether it succeeds, the second returning the value or \<open>None\<close>. The version
  of rateBuildUp/rbu.py is the same code on the cells of a spreadsheet; the model is
  about cells that are strings.
\<close>

definition is_number :: "unicode_tables \<Rightarrow> pystr \<Rightarrow> bool" where
  "is_number U x \<longleftrightarrow> py_float U (filter (\<lambda>c. c \<noteq> 44) x) \<noteq> None"

definition to_float_rbu :: "unicode_tables \<Rightarrow> pystr \<Rightarrow> pyfloat option" where
  "to_float_rbu U x = py_float U (filter (\<lambda>c. c \<noteq> 44) x)"

text \<open>
  \<open>forward_fill(row)\<close>: each cell becomes the stripped text of the nearest non-blank
  cell at or to the left of it; \<open>fill_from\<close> carries \<open>last\<close>.
\<close>

fun fill_from :: "pystr \<Rightarrow> row \<Rightarrow> row" where
  "fill_from last_seen [] = []"
| "fill_from last_seen (x # xs) =
     (let last' = (if \<not> is_blank x then strip x else last_seen) in last' # fill_from last' xs)"

definition forward_fill :: "row \<Rightarrow> row" where
  "forward_fill r = fill_from [] r"

text \<open>
  \<open>detect_sections(grid)\<close> with its default \<open>section_row = 0\<close>: the loop runs over the
  columns of \<open>grid[0]\<close> and reads \<open>grid[0][c]\<close>, so it is the forward fill of the first
  row; an empty grid raises \<open>IndexError\<close>. The dictionary from column to label is the
  list of the labels.
\<close>

definition detect_sections :: "grid \<Rightarrow> py_error + pystr list" where
  "detect_sections grid = (case grid of [] \<Rightarrow> Inl IndexError | row0 # _ \<Rightarrow> Inr (fill_from [] row0))"

text \<open>
  \<open>find_tables(grid)\<close> with its default \<open>start_row = 1\<close>: the maximal runs of rows that
  are not entirely blank, as pairs \<open>(top, bottom)\<close>. \<open>table_end\<close> is the inner loop.
\<close>

function table_end :: "grid \<Rightarrow> nat \<Rightarrow> nat" where
  "table_end grid r =
     (if r < length grid \<and> \<not> list_all is_blank (grid ! r) then table_end grid (r + 1) else r)"
  by pat_completeness auto
termination
  by (relation "measure (\<lambda>(grid, r). length grid - r)") auto

declare table_end.simps [simp del]

lemma table_end_ge: "r \<le> table_end grid r"
proof (induction grid r rule: table_end.induct)
  case (1 grid r)
  show ?case
  proof (cases "r < length grid \<and> \<not> list_all is_blank (grid ! r)")
    case True
    with "1.IH" have "r + 1 \<le> table_end grid (r + 1)" by simp
    with True show ?thesis by (subst table_end.simps) simp
  next
    case False
    then show ?thesis by (subst table_end.simps) auto
  qed
qed

function find_tables_from :: "grid \<Rightarrow> nat \<Rightarrow> (nat \<times> nat) list" where
  "find_tables_from grid r =
     (if r < length grid then
        (if list_all is_blank (grid ! r) then find_tables_from grid (r + 1)
         else (let top_row = r; r' = table_end grid r
               in (top_row, r' - 1) # find_tables_from grid (r' + 1)))
      else [])"
  by pat_completeness auto
termination
proof (relation "measure (\<lambda>(grid, r). length grid - r)", goal_cases)
  case 1
  show ?case by simp
next
  case (2 grid r)
  then show ?case by simp
next
  case (3 grid r x xa)
  then have "r \<le> xa" using table_end_ge by simp
  with 3 show ?case by simp
qed

declare find_tables_from.simps [simp del]

definition find_tables :: "grid \<Rightarrow> (nat \<times> nat) list" where
  "find_tables grid = find_tables_from grid 1"

text \<open>
  The header scan of \<open>extract_records\<close> over the rows \<open>top .. bottom\<close> of a table: it
  stops at the first row with a cell that \<open>is_number\<close> accepts, which becomes
  \<open>data_start\<close>; the rows before it are the header rows.
\<close>

fun header_scan ::
  "unicode_tables \<Rightarrow> grid \<Rightarrow> nat list \<Rightarrow> nat list \<Rightarrow> py_error + (nat list \<times> nat option)" where
  "header_scan U grid [] headers = Inr (headers, None)"
| "header_scan U grid (r # rs) headers =
     (case py_get grid (int r) of
        Inl e \<Rightarrow> Inl e
      | Inr line \<Rightarrow>
          if list_ex (is_number U) line then Inr (headers, Some r)
          else header_scan U grid rs (headers @ [r]))"

text \<open>One record; the keys of the source's dictionary carry the prefix \<open>dv_\<close>.\<close>

record dv_record =
  dv_source :: pystr
  dv_section :: pystr
  dv_group :: pystr
  dv_sub_group :: pystr
  dv_period :: pystr
  dv_channel :: pystr
  dv_value :: "pyfloat option"
  dv_raw :: pystr

text \<open>\<open>nums = [c for c, v in enumerate(row) if is_number(v)]\<close>.\<close>

definition numeric_cols :: "unicode_tables \<Rightarrow> row \<Rightarrow> nat list" where
  "numeric_cols U line = filter (\<lambda>c. is_number U (line ! c)) [0..<length line]"

text \<open>
  \<open>channel = row[nums[0] - 1].strip()\<close> for a row with a numeric cell: the index is an
  \<open>int\<close>, and \<open>-1\<close> is the last cell.
\<close>

definition row_channel :: "unicode_tables \<Rightarrow> row \<Rightarrow> py_error + pystr" where
  "row_channel U line =
     (case py_get line (int (hd (numeric_cols U line)) - 1) of
        Inl e \<Rightarrow> Inl e
      | Inr s \<Rightarrow> Inr (strip s))"

text \<open>
  \<open>section_map[c]\<close> is a dictionary lookup (\<open>KeyError\<close>), \<open>group[c]\<close> and the like are
  list accesses (\<open>IndexError\<close>), in the order of the dictionary display.
\<close>

definition dict_at :: "pystr list \<Rightarrow> nat \<Rightarrow> py_error + pystr" where
  "dict_at m c = (if c < length m then Inr (m ! c) else Inl KeyError)"

fun row_records ::
  "unicode_tables \<Rightarrow> pystr \<Rightarrow> pystr list \<Rightarrow> row \<Rightarrow> row \<Rightarrow> row \<Rightarrow> pystr \<Rightarrow> row \<Rightarrow> nat list
    \<Rightarrow> py_error + dv_record list" where
  "row_records U source section_map grp sub_group period channel line [] = Inr []"
| "row_records U source section_map grp sub_group period channel line (c # cs) =
     (case dict_at section_map c of
        Inl e \<Rightarrow> Inl e
      | Inr sec \<Rightarrow>
          (case py_get grp (int c) of
             Inl e \<Rightarrow> Inl e
           | Inr g \<Rightarrow>
               (case py_get sub_group (int c) of
                  Inl e \<Rightarrow> Inl e
                | Inr sg \<Rightarrow>
                    (case py_get period (int c) of
                       Inl e \<Rightarrow> Inl e
                     | Inr p \<Rightarrow>
                         (case py_get line (int c) of
                            Inl e \<Rightarrow> Inl e
                          | Inr v \<Rightarrow>
                              (case row_records U source section_map grp sub_group period
                                      channel line cs of
                                 Inl e \<Rightarrow> Inl e
                               | Inr rest \<Rightarrow>
                                   Inr (\<lparr>dv_source = source, dv_section = sec, dv_group = g,
                                         dv_sub_group = sg, dv_period = p, dv_channel = channel,
                                         dv_value = to_float_rbu U v, dv_raw = v\<rparr> # rest)))))))"

text \<open>The loop \<open>for r in range(data_start, bottom + 1)\<close> over the data rows of a table.\<close>

fun data_rows_records ::
  "unicode_tables \<Rightarrow> grid \<Rightarrow> pystr \<Rightarrow> pystr list \<Rightarrow> row \<Rightarrow> row \<Rightarrow> row \<Rightarrow> nat list
    \<Rightarrow> py_error + dv_record list" where
  "data_rows_records U grid source section_map grp sub_group period [] = Inr []"
| "data_rows_records U grid source section_map grp sub_group period (r # rs) =
     (case py_get grid (int r) of
        Inl e \<Rightarrow> Inl e
      | Inr line \<Rightarrow>
          if numeric_cols U line = [] then
            data_rows_records U grid source section_map grp sub_group period rs
          else
            (case row_channel U line of
               Inl e \<Rightarrow> Inl e
             | Inr channel \<Rightarrow>
                 (case row_records U source section_map grp sub_group period channel line
                         (numeric_cols U line) of
                    Inl e \<Rightarrow> Inl e
                  | Inr recs \<Rightarrow>
                      (case data_rows_records U grid source section_map grp sub_group period rs of
                         Inl e \<Rightarrow> Inl e
                       | Inr rest \<Rightarrow> Inr (recs @ rest)))))"

text \<open>
  The body of the loop over the tables. A table with fewer than three header rows is
  passed over (\<open>continue\<close>). A table of three or more rows without any numeric cell has
  \<open>data_start = None\<close>, and \<open>range(None, bottom + 1)\<close> raises \<open>TypeError\<close>.
\<close>

definition table_records ::
  "unicode_tables \<Rightarrow> grid \<Rightarrow> pystr \<Rightarrow> pystr list \<Rightarrow> nat \<times> nat \<Rightarrow> py_error + dv_record list" where
  "table_records U grid source section_map tb =
     (case tb of
        (top_row, bottom) \<Rightarrow>
          (case header_scan U grid [top_row..<bottom + 1] [] of
             Inl e \<Rightarrow> Inl e
           | Inr (headers, data_start) \<Rightarrow>
               if length headers < 3 then Inr []
               else
                 (case py_get grid (int (headers ! 0)) of
                    Inl e \<Rightarrow> Inl e
                  | Inr g_row \<Rightarrow>
                      (case py_get grid (int (headers ! 1)) of
                         Inl e \<Rightarrow> Inl e
                       | Inr sg_row \<Rightarrow>
                           (case py_get grid (int (headers ! 2)) of
                              Inl e \<Rightarrow> Inl e
                            | Inr p_row \<Rightarrow>
                                (case data_start of
                                   None \<Rightarrow> Inl TypeError
                                 | Some ds \<Rightarrow>
                                     data_rows_records U grid source section_map
                                       (forward_fill g_row) (forward_fill sg_row)
                                       (forward_fill p_row) [ds..<bottom + 1]))))))"

fun tables_records ::
  "unicode_tables \<Rightarrow> grid \<Rightarrow> pystr \<Rightarrow> pystr list \<Rightarrow> (nat \<times> nat) list \<Rightarrow> py_error + dv_record list" where
  "tables_records U grid source section_map [] = Inr []"
| "tables_records U grid source section_map (tb # tbs) =
     (case table_records U grid source section_map tb of
        Inl e \<Rightarrow> Inl e
      | Inr recs \<Rightarrow>
          (case tables_records U grid source section_map tbs of
             Inl e \<Rightarrow> Inl e
           | Inr rest \<Rightarrow> Inr (recs @ rest)))"

definition extract_records :: "unicode_tables \<Rightarrow> grid \<Rightarrow> pystr \<Rightarrow> py_error + dv_record list" where
  "extract_records U grid source =
     (case detect_sections grid of
        Inl e \<Rightarrow> Inl e
      | Inr section_map \<Rightarrow> tables_records U grid source section_map (find_tables grid))"

section \<open>Cell classifiers (rateBuildUp/rbuSpace.py)\<close>

text \<open>
  \<open>\d\<close> in a \<open>str\<close> pattern is any Unicode decimal digit, \<open>c.isalpha()\<close> any letter, and
  \<open>\b\<close> looks at the word characters (letters, digits and the underscore).
\<close>

definition is_digit :: "unicode_tables \<Rightarrow> nat \<Rightarrow> bool" where
  "is_digit U c \<longleftrightarrow> (if c < 128 then is_ascii_digit c else uc_decimal U c \<noteq> None)"

definition is_alpha :: "unicode_tables \<Rightarrow> nat \<Rightarrow> bool" where
  "is_alpha U c \<longleftrightarrow>
     (if c < 128 then (65 \<le> c \<and> c \<le> 90) \<or> (97 \<le> c \<and> c \<le> 122) else uc_alpha U c)"

definition is_word :: "unicode_tables \<Rightarrow> nat \<Rightarrow> bool" where
  "is_word U c \<longleftrightarrow>
     (if c < 128 then is_ascii_digit c \<or> (65 \<le> c \<and> c \<le> 90) \<or> (97 \<le> c \<and> c \<le> 122) \<or> c = 95
      else uc_word U c)"

text \<open>
  \<open>looks_numeric\<close> is a \<open>re.fullmatch\<close> of the stripped cell against three alternatives.
  Each is read from left to right without choice, because no character that a part may
  consume is accepted by what follows it. \<open>num_tail\<close> is \<open>(?:\.\d+)?\<close> followed, when
  \<open>pct\<close> holds, by \<open>%?\<close>, up to the end of the string.
\<close>

definition opt_sign :: "pystr \<Rightarrow> pystr" where
  "opt_sign s = (case s of [] \<Rightarrow> [] | c # cs \<Rightarrow> if c = 45 \<or> c = 43 then cs else s)"

definition num_tail :: "unicode_tables \<Rightarrow> bool \<Rightarrow> pystr \<Rightarrow> bool" where
  "num_tail U pct s =
     (case (case s of
              [] \<Rightarrow> Some []
            | c # cs \<Rightarrow>
                if c = 46 then
                  (if takeWhile (is_digit U) cs = [] then None
                   else Some (dropWhile (is_digit U) cs))
                else Some s) of
        None \<Rightarrow> False
      | Some r \<Rightarrow> r = [] \<or> (pct \<and> r = [37]))"

text \<open>\<open>(?:,\d{3})*\<close>: the rest of the string after the groups, \<open>None\<close> when a comma is not
  followed by exactly three digits.\<close>

fun after_groups :: "unicode_tables \<Rightarrow> pystr \<Rightarrow> pystr option" where
  "after_groups U (c # d1 # d2 # d3 # rest) =
     (if c = 44 then
        (if is_digit U d1 \<and> is_digit U d2 \<and> is_digit U d3 \<and>
            (case rest of [] \<Rightarrow> True | x # _ \<Rightarrow> \<not> is_digit U x)
         then after_groups U rest else None)
      else Some (c # d1 # d2 # d3 # rest))"
| "after_groups U s = (case s of [] \<Rightarrow> Some [] | c # _ \<Rightarrow> if c = 44 then None else Some s)"

text \<open>\<open>[-+]?\d{1,3}(?:,\d{3})*(?:\.\d+)?%?\<close>\<close>

definition grouped_number :: "unicode_tables \<Rightarrow> pystr \<Rightarrow> bool" where
  "grouped_number U t =
     (let s = opt_sign t; ds = takeWhile (is_digit U) s in
      1 \<le> length ds \<and> length ds \<le> 3 \<and>
      (case after_groups U (dropWhile (is_digit U) s) of
         None \<Rightarrow> False
       | Some r \<Rightarrow> num_tail U True r))"

text \<open>\<open>[-+]?\d+(?:\.\d+)?%?\<close>\<close>

definition plain_number :: "unicode_tables \<Rightarrow> pystr \<Rightarrow> bool" where
  "plain_number U t =
     (let s = opt_sign t in
      takeWhile (is_digit U) s \<noteq> [] \<and> num_tail U True (dropWhile (is_digit U) s))"

text \<open>\<open>[Rs$EUR]?\s*[-+]?\d+(?:\.\d+)?\<close>, the class being the rupee sign (U+20B9), the dollar
  sign and the euro sign (U+20AC).\<close>

definition currency_number :: "unicode_tables \<Rightarrow> pystr \<Rightarrow> bool" where
  "currency_number U t =
     (let s0 = (case t of [] \<Rightarrow> [] | c # cs \<Rightarrow> if c = 8377 \<or> c = 36 \<or> c = 8364 then cs else t);
          s = opt_sign (dropWhile is_space s0)
      in takeWhile (is_digit U) s \<noteq> [] \<and> num_tail U False (dropWhile (is_digit U) s))"

definition looks_numeric :: "unicode_tables \<Rightarrow> pystr \<Rightarrow> bool" where
  "looks_numeric U s \<longleftrightarrow>
     \<not> is_blank s \<and>
     (grouped_number U (strip s) \<or> plain_number U (strip s) \<or> currency_number U (strip s))"

text \<open>\<open>x / 100.0\<close> for a float \<open>x\<close>.\<close>

definition float_div100 :: "pyfloat \<Rightarrow> pyfloat" where
  "float_div100 x =
     (case x of
        Fin q \<Rightarrow> (case quotient_of q of (n, d) \<Rightarrow> round_ratio n (d * 100))
      | PInf \<Rightarrow> PInf
      | NInf \<Rightarrow> NInf
      | NaN \<Rightarrow> NaN)"

text \<open>
  \<open>parse_numeric\<close>: a stripped text that ends in \<open>%\<close> loses the sign and its commas and
  is divided by 100; any other text loses the currency signs and the commas.
\<close>

definition parse_numeric :: "unicode_tables \<Rightarrow> pystr \<Rightarrow> pyfloat option" where
  "parse_numeric U s =
     (if is_blank s then None
      else
        (let t = strip s in
         if t \<noteq> [] \<and> last t = 37 then
           (case py_float U (filter (\<lambda>c. c \<noteq> 44) (butlast t)) of
              None \<Rightarrow> None
            | Some f \<Rightarrow> Some (float_div100 f))
         else py_float U (filter (\<lambda>c. c \<noteq> 8377 \<and> c \<noteq> 36 \<and> c \<noteq> 8364 \<and> c \<noteq> 44) t)))"

definition looks_alpha :: "unicode_tables \<Rightarrow> pystr \<Rightarrow> bool" where
  "looks_alpha U s \<longleftrightarrow> \<not> is_blank s \<and> list_ex (is_alpha U) s"

text \<open>
  \<open>DATE_WINDOW_RE.search\<close> for \<open>\b\d{2}/\d{2}\s*[-en dash]\s*\d{2}/\d{2}\b\<close>: the leftmost
  match. \<open>date_at\<close> matches at the head of a string and returns the matched text; the
  flag tells whether the character before is a word character.
\<close>

definition two_digits :: "unicode_tables \<Rightarrow> pystr \<Rightarrow> pystr option" where
  "two_digits U s =
     (case s of
        a # b # r \<Rightarrow> if is_digit U a \<and> is_digit U b then Some r else None
      | _ \<Rightarrow> None)"

definition date_half :: "unicode_tables \<Rightarrow> pystr \<Rightarrow> pystr option" where
  "date_half U s =
     (case two_digits U s of
        None \<Rightarrow> None
      | Some r \<Rightarrow> (case r of [] \<Rightarrow> None | c # r' \<Rightarrow> if c = 47 then two_digits U r' else None))"

definition date_at :: "unicode_tables \<Rightarrow> bool \<Rightarrow> pystr \<Rightarrow> pystr option" where
  "date_at U prev_word s =
     (case date_half U s of
        None \<Rightarrow> None
      | Some r1 \<Rightarrow>
          (case dropWhile is_space r1 of
             [] \<Rightarrow> None
           | c # r2 \<Rightarrow>
               if c = 45 \<or> c = 8211 then
                 (case date_half U (dropWhile is_space r2) of
                    None \<Rightarrow> None
                  | Some r3 \<Rightarrow>
                      (let m = take (length s - length r3) s in
                       if prev_word \<noteq> is_word U (hd s) \<and>
                          is_word U (last m) \<noteq> (case r3 of [] \<Rightarrow> False | x # _ \<Rightarrow> is_word U x)
                       then Some m else None))
               else None))"

fun date_search :: "unicode_tables \<Rightarrow> bool \<Rightarrow> pystr \<Rightarrow> pystr option" where
  "date_search U prev_word [] = None"
| "date_search U prev_word (c # cs) =
     (case date_at U prev_word (c # cs) of
        Some m \<Rightarrow> Some m
      | None \<Rightarrow> date_search U (is_word U c) cs)"

text \<open>\<open>parse_date_window_token\<close>: the match with the en dash turned into \<open>-\<close> and the
  spaces removed.\<close>

definition parse_date_window_token :: "unicode_tables \<Rightarrow> pystr \<Rightarrow> pystr option" where
  "parse_date_window_token U cl =
     (if is_blank cl then None
      else
        (case date_search U False cl of
           None \<Rightarrow> None
         | Some m \<Rightarrow> Some (filter (\<lambda>c. c \<noteq> 32) (replace_char 8211 45 m))))"

section \<open>Labels and records of a table block (rateBuildUp/rbuSpace.py)\<close>

text \<open>\<open>any(looks_alpha(row[c]) for c in range(left, right + 1))\<close>\<close>

fun any_alpha :: "unicode_tables \<Rightarrow> row \<Rightarrow> int list \<Rightarrow> py_error + bool" where
  "any_alpha U line [] = Inr False"
| "any_alpha U line (c # cs) =
     (case py_get line c of
        Inl e \<Rightarrow> Inl e
      | Inr v \<Rightarrow> if looks_alpha U v then Inr True else any_alpha U line cs)"

text \<open>The forward fill of a label row over the columns of the block.\<close>

fun fill_cols :: "row \<Rightarrow> pystr \<Rightarrow> int list \<Rightarrow> py_error + row" where
  "fill_cols line last_seen [] = Inr []"
| "fill_cols line last_seen (c # cs) =
     (case py_get line c of
        Inl e \<Rightarrow> Inl e
      | Inr v \<Rightarrow>
          (let last' = (if \<not> is_blank v then strip v else last_seen) in
           case fill_cols line last' cs of
             Inl e \<Rightarrow> Inl e
           | Inr filled \<Rightarrow> Inr (last' # filled)))"

text \<open>The loop \<open>for r in range(top, bottom + 1)\<close> of \<open>forward_fill_label_rows\<close>.\<close>

fun label_rows_loop ::
  "unicode_tables \<Rightarrow> grid \<Rightarrow> int \<Rightarrow> int \<Rightarrow> int list \<Rightarrow> py_error + row list" where
  "label_rows_loop U grid left right [] = Inr []"
| "label_rows_loop U grid left right (r # rs) =
     (case py_get grid r of
        Inl e \<Rightarrow> Inl e
      | Inr line \<Rightarrow>
          (case any_alpha U line [left..right] of
             Inl e \<Rightarrow> Inl e
           | Inr a \<Rightarrow>
               if a then
                 (case fill_cols line [] [left..right] of
                    Inl e \<Rightarrow> Inl e
                  | Inr filled \<Rightarrow>
                      (case label_rows_loop U grid left right rs of
                         Inl e \<Rightarrow> Inl e
                       | Inr rest \<Rightarrow> Inr (filled # rest)))
               else label_rows_loop U grid left right rs))"

definition forward_fill_label_rows ::
  "unicode_tables \<Rightarrow> grid \<Rightarrow> int \<Rightarrow> int \<Rightarrow> int \<Rightarrow> int \<Rightarrow> py_error + row list" where
  "forward_fill_label_rows U grid top_row bottom left right =
     label_rows_loop U grid left right [top_row..bottom]"

text \<open>Whether row \<open>r\<close> has an alphabetic cell within the columns \<open>left .. right\<close>.\<close>

definition is_label_row :: "unicode_tables \<Rightarrow> grid \<Rightarrow> int \<Rightarrow> int \<Rightarrow> int \<Rightarrow> bool" where
  "is_label_row U grid left right r \<longleftrightarrow>
     (case py_get grid r of
        Inl e \<Rightarrow> False
      | Inr line \<Rightarrow> any_alpha U line [left..right] = Inr True)"

text \<open>
  \<open>group_path_for_col\<close>, the closure over \<open>label_rows\<close> and \<open>left\<close>: the non-empty entries
  of the first three label rows at the column.
\<close>

definition group_path_for_col :: "row list \<Rightarrow> int \<Rightarrow> int \<Rightarrow> pystr list" where
  "group_path_for_col label_rows left col =
     (let idx = col - left in
      concat (map (\<lambda>lr. if 0 \<le> idx \<and> idx < int (length lr)
                         then (let v = lr ! nat idx in if v \<noteq> [] then [v] else [])
                         else [])
                  (take 3 label_rows)))"

text \<open>
  \<open>nearest_metric_above_col\<close>: the header rows from \<open>header_rows - 1\<close> down to 0; the cell
  is \<open>grid[r][col] if r < len(grid) and col < len(grid[0]) else ""\<close>.
\<close>

definition metric_cell :: "grid \<Rightarrow> int \<Rightarrow> int \<Rightarrow> py_error + pystr" where
  "metric_cell grid r col =
     (if r < int (length grid) then
        (case py_get grid 0 of
           Inl e \<Rightarrow> Inl e
         | Inr row0 \<Rightarrow> if col < int (length row0) then cell grid r col else Inr [])
      else Inr [])"

fun nearest_metric_loop ::
  "unicode_tables \<Rightarrow> grid \<Rightarrow> int \<Rightarrow> bool \<Rightarrow> bool \<Rightarrow> int list \<Rightarrow> py_error + pystr" where
  "nearest_metric_loop U grid col prefer_non_date no_date_window [] = Inr []"
| "nearest_metric_loop U grid col prefer_non_date no_date_window (r # rs) =
     (case metric_cell grid r col of
        Inl e \<Rightarrow> Inl e
      | Inr cl \<Rightarrow>
          if is_blank cl then nearest_metric_loop U grid col prefer_non_date no_date_window rs
          else if prefer_non_date \<and> \<not> no_date_window \<and> parse_date_window_token U (strip cl) \<noteq> None
          then nearest_metric_loop U grid col prefer_non_date no_date_window rs
          else Inr (strip cl))"

definition nearest_metric_above_col ::
  "unicode_tables \<Rightarrow> grid \<Rightarrow> int \<Rightarrow> int \<Rightarrow> bool \<Rightarrow> bool \<Rightarrow> py_error + pystr" where
  "nearest_metric_above_col U grid header_rows col prefer_non_date no_date_window =
     nearest_metric_loop U grid col prefer_non_date no_date_window (rev [0..header_rows - 1])"

text \<open>\<open>first_data_col_in_row\<close>: the first column of \<open>left .. right\<close> whose cell looks numeric.\<close>

fun first_data_col ::
  "unicode_tables \<Rightarrow> grid \<Rightarrow> int \<Rightarrow> int list \<Rightarrow> py_error + int option" where
  "first_data_col U grid r [] = Inr None"
| "first_data_col U grid r (c # cs) =
     (case cell grid r c of
        Inl e \<Rightarrow> Inl e
      | Inr v \<Rightarrow> if looks_numeric U v then Inr (Some c) else first_data_col U grid r cs)"

definition first_data_col_in_row ::
  "unicode_tables \<Rightarrow> grid \<Rightarrow> int \<Rightarrow> int \<Rightarrow> int \<Rightarrow> py_error + int option" where
  "first_data_col_in_row U grid r left right = first_data_col U grid r [left..right]"

text \<open>
  \<open>date_window_for_col\<close>: the two loops over the header rows, bottom up, the first for a
  date-window token and the second for any non-blank text.
\<close>

fun header_text_loop :: "grid \<Rightarrow> int \<Rightarrow> int list \<Rightarrow> py_error + pystr" where
  "header_text_loop grid col [] = Inr []"
| "header_text_loop grid col (r # rs) =
     (case cell grid r col of
        Inl e \<Rightarrow> Inl e
      | Inr cl \<Rightarrow> if \<not> is_blank cl then Inr (strip cl) else header_text_loop grid col rs)"

fun date_token_loop ::
  "unicode_tables \<Rightarrow> grid \<Rightarrow> int \<Rightarrow> int list \<Rightarrow> py_error + pystr option" where
  "date_token_loop U grid col [] = Inr None"
| "date_token_loop U grid col (r # rs) =
     (case cell grid r col of
        Inl e \<Rightarrow> Inl e
      | Inr cl \<Rightarrow>
          (case parse_date_window_token U cl of
             Some tok \<Rightarrow> Inr (Some tok)
           | None \<Rightarrow> date_token_loop U grid col rs))"

definition date_window_for_col ::
  "unicode_tables \<Rightarrow> grid \<Rightarrow> int \<Rightarrow> int \<Rightarrow> bool \<Rightarrow> py_error + pystr" where
  "date_window_for_col U grid header_rows col no_date_window =
     (if no_date_window then header_text_loop grid col (rev [0..header_rows - 1])
      else
        (case date_token_loop U grid col (rev [0..header_rows - 1]) of
           Inl e \<Rightarrow> Inl e
         | Inr (Some tok) \<Rightarrow> Inr tok
         | Inr None \<Rightarrow> header_text_loop grid col (rev [0..header_rows - 1])))"

text \<open>
  The channel of a data row:
  \<open>if data_start_col is not None and data_start_col - 1 >= left\<close>, the stripped cell to
  the left of the first numeric column, and \<open>""\<close> otherwise.
\<close>

definition block_channel :: "grid \<Rightarrow> int \<Rightarrow> int \<Rightarrow> int option \<Rightarrow> py_error + pystr" where
  "block_channel grid r left data_start_col =
     (case data_start_col of
        None \<Rightarrow> Inr []
      | Some d \<Rightarrow>
          if d - 1 \<ge> left then
            (case cell grid r (d - 1) of
               Inl e \<Rightarrow> Inl e
             | Inr ch_cell \<Rightarrow> Inr (if \<not> is_blank ch_cell then strip ch_cell else []))
          else Inr [])"

text \<open>
  The loops of \<open>extract_space_technique\<close> over the cells of a row and over the rows of a
  block, which it runs for every block of a labelled section and, with the label
  \<open>Standalone\<close>, for every block of the unlabelled columns.
\<close>

fun cells_records ::
  "unicode_tables \<Rightarrow> grid \<Rightarrow> pystr \<Rightarrow> pystr \<Rightarrow> row list \<Rightarrow> int \<Rightarrow> int \<Rightarrow> bool \<Rightarrow> pystr \<Rightarrow> int
    \<Rightarrow> int list \<Rightarrow> py_error + srecord list" where
  "cells_records U grid source sec_label label_rows left header_rows no_date_window channel r [] =
     Inr []"
| "cells_records U grid source sec_label label_rows left header_rows no_date_window channel r (c # cs) =
     (case cell grid r c of
        Inl e \<Rightarrow> Inl e
      | Inr val \<Rightarrow>
          if looks_numeric U val then
            (case nearest_metric_above_col U grid header_rows c True no_date_window of
               Inl e \<Rightarrow> Inl e
             | Inr metric \<Rightarrow>
                 (case date_window_for_col U grid header_rows c no_date_window of
                    Inl e \<Rightarrow> Inl e
                  | Inr dw \<Rightarrow>
                      (case cells_records U grid source sec_label label_rows left header_rows
                              no_date_window channel r cs of
                         Inl e \<Rightarrow> Inl e
                       | Inr rest \<Rightarrow>
                           Inr (\<lparr>rec_source = source, rec_section = sec_label,
                                 rec_group_path = group_path_for_col label_rows left c,
                                 rec_channel = channel, rec_metric = metric,
                                 rec_date_window = dw, rec_value_text = strip val,
                                 rec_value_num = parse_numeric U val,
                                 rec_row_index = r, rec_col_index = c\<rparr> # rest))))
          else
            cells_records U grid source sec_label label_rows left header_rows no_date_window
              channel r cs)"

fun block_rows_records ::
  "unicode_tables \<Rightarrow> grid \<Rightarrow> pystr \<Rightarrow> pystr \<Rightarrow> row list \<Rightarrow> int \<Rightarrow> int \<Rightarrow> int \<Rightarrow> bool
    \<Rightarrow> int list \<Rightarrow> py_error + srecord list" where
  "block_rows_records U grid source sec_label label_rows left right header_rows no_date_window [] =
     Inr []"
| "block_rows_records U grid source sec_label label_rows left right header_rows no_date_window
     (r # rs) =
     (case first_data_col_in_row U grid r left right of
        Inl e \<Rightarrow> Inl e
      | Inr data_start_col \<Rightarrow>
          (case block_channel grid r left data_start_col of
             Inl e \<Rightarrow> Inl e
           | Inr channel \<Rightarrow>
               (case cells_records U grid source sec_label label_rows left header_rows
                       no_date_window channel r [left..right] of
                  Inl e \<Rightarrow> Inl e
                | Inr recs \<Rightarrow>
                    (case block_rows_records U grid source sec_label label_rows left right
                            header_rows no_date_window rs of
                       Inl e \<Rightarrow> Inl e
                     | Inr rest \<Rightarrow> Inr (recs @ rest)))))"

definition block_records ::
  "unicode_tables \<Rightarrow> grid \<Rightarrow> pystr \<Rightarrow> pystr \<Rightarrow> int \<Rightarrow> bool \<Rightarrow> block \<Rightarrow> py_error + srecord list" where
  "block_records U grid source sec_label header_rows no_date_window b =
     (case b of
        (top_row, bottom, left, right) \<Rightarrow>
          (case forward_fill_label_rows U grid top_row bottom left right of
             Inl e \<Rightarrow> Inl e
           | Inr label_rows \<Rightarrow>
               block_rows_records U grid source sec_label label_rows left right header_rows
                 no_date_window [top_row..bottom]))"

text \<open>The cells of a block that look numeric, row by row, as pairs of row and column.\<close>

definition numeric_cell :: "unicode_tables \<Rightarrow> grid \<Rightarrow> int \<Rightarrow> int \<Rightarrow> bool" where
  "numeric_cell U grid r c \<longleftrightarrow>
     (case cell grid r c of Inl e \<Rightarrow> False | Inr v \<Rightarrow> looks_numeric U v)"

definition numeric_cells :: "unicode_tables \<Rightarrow> grid \<Rightarrow> block \<Rightarrow> (int \<times> int) list" where
  "numeric_cells U grid b =
     (case b of
        (top_row, bottom, left, right) \<Rightarrow>
          concat (map (\<lambda>r. map (Pair r) (filter (numeric_cell U grid r) [left..right]))
                      [top_row..bottom]))"

text \<open>A data row whose first cell is numeric; its last cell is \<open>Retail\<close> with a trailing space.\<close>

definition row_numeric_first :: row where
  "row_numeric_first = [lit ''5'', lit ''x'', lit ''Retail '']"

text \<open>
  The forward fill of row \<open>r\<close> over the columns \<open>left .. right\<close>, and whether row \<open>r\<close>
  has a cell that \<open>is_number\<close> accepts: the test of the header scan of
  \<open>extract_records\<close>.
\<close>

definition filled_row :: "grid \<Rightarrow> int \<Rightarrow> int \<Rightarrow> int \<Rightarrow> py_error + row" where
  "filled_row grid left right r =
     (case py_get grid r of Inl e \<Rightarrow> Inl e | Inr line \<Rightarrow> fill_cols line [] [left..right])"

definition row_has_number :: "unicode_tables \<Rightarrow> grid \<Rightarrow> nat \<Rightarrow> bool" where
  "row_has_number U grid r \<longleftrightarrow>
     (case py_get grid (int r) of Inl e \<Rightarrow> False | Inr line \<Rightarrow> list_ex (is_number U) line)"

text \<open>
  A block whose last row has a letter below a row of numbers, and a table whose first
  row has no letter and whose second row has one number among three cells.
\<close>

definition grid_late_label :: grid where
  "grid_late_label = [[lit ''G'', lit ''H''], [lit ''1'', lit ''2''], [lit ''x'', lit ''3'']]"

definition grid_minority :: grid where
  "grid_minority =
     [[lit ''--'', lit ''--'', lit ''--''], [lit ''a'', lit ''b'', lit ''1''],
      [lit ''1'', lit ''2'', lit ''3'']]"

section \<open>Properties of the table-block finder\<close>

text \<open>Rules that evaluate the functions above on a concrete grid.\<close>

lemmas str_eval = lit_def is_blank_def strip_def lstrip_def rstrip_def is_space_def

lemmas grid_eval = cell_def py_get_def Let_def upto.simps

lemmas block_eval = find_table_blocks_in_section_def find_blocks_loop.simps
  first_non_empty_row_in_cols.simps py_min_def right_boundary_in_row_until_empty_col_def
  py_index_def block_end.simps

text \<open>
  Every function of the block finder reads a cell only through \<open>is_blank\<close>, so each
  gives the same result on two grids of one blankness pattern.
\<close>

lemma blank_pattern_length:
  "blank_pattern g1 = blank_pattern g2 \<Longrightarrow> length g1 = length g2"
  unfolding blank_pattern_def by (rule map_eq_imp_length_eq)

lemma blank_pattern_row:
  assumes "blank_pattern g1 = blank_pattern g2" and "k < length g1"
  shows "map is_blank (g1 ! k) = map is_blank (g2 ! k)"
proof -
  have "k < length g2" using assms blank_pattern_length by metis
  have "blank_pattern g1 ! k = blank_pattern g2 ! k" using assms by simp
  then show ?thesis using \<open>k < length g1\<close> \<open>k < length g2\<close> by (simp add: blank_pattern_def)
qed

lemma py_get_blank_rel:
  assumes "map is_blank xs = map is_blank ys"
  shows "rel_sum (=) (\<lambda>a b. is_blank a = is_blank b) (py_get xs i) (py_get ys i)"
proof -
  have len: "length xs = length ys" using assms by (rule map_eq_imp_length_eq)
  have nth: "is_blank (xs ! k) = is_blank (ys ! k)" if "k < length xs" for k
  proof -
    have "map is_blank xs ! k = map is_blank ys ! k" using assms by simp
    then show ?thesis using that len by simp
  qed
  show ?thesis
    unfolding py_get_def using len nth by auto
qed

lemma cell_blank_rel:
  assumes "blank_pattern g1 = blank_pattern g2"
  shows "rel_sum (=) (\<lambda>a b. is_blank a = is_blank b) (cell g1 r c) (cell g2 r c)"
proof -
  have len: "length g1 = length g2" using assms by (rule blank_pattern_length)
  have rows: "rel_sum (=) (\<lambda>a b. map is_blank a = map is_blank b) (py_get g1 r) (py_get g2 r)"
    unfolding py_get_def using len blank_pattern_row [OF assms] by auto
  then show ?thesis
    unfolding cell_def by (cases "py_get g1 r"; cases "py_get g2 r") (auto intro: py_get_blank_rel)
qed

lemma any_non_blank_pattern:
  assumes "blank_pattern g1 = blank_pattern g2"
  shows "any_non_blank g1 r cols = any_non_blank g2 r cols"
proof (induction cols)
  case Nil
  show ?case by simp
next
  case (Cons c cs)
  from cell_blank_rel [OF assms, of r c] Cons show ?case
    by (cases "cell g1 r c"; cases "cell g2 r c") auto
qed

lemma all_blank_pattern:
  assumes "blank_pattern g1 = blank_pattern g2"
  shows "all_blank g1 r cols = all_blank g2 r cols"
proof (induction cols)
  case Nil
  show ?case by simp
next
  case (Cons c cs)
  from cell_blank_rel [OF assms, of r c] Cons show ?case
    by (cases "cell g1 r c"; cases "cell g2 r c") auto
qed

lemma boundary_scan_pattern:
  assumes "blank_pattern g1 = blank_pattern g2"
  shows "boundary_scan g1 row sc start b started cs = boundary_scan g2 row sc start b started cs"
proof (induction cs arbitrary: started)
  case Nil
  show ?case by simp
next
  case (Cons c cs)
  from cell_blank_rel [OF assms, of row c] Cons show ?case
    by (cases "cell g1 row c"; cases "cell g2 row c") (auto simp: Let_def)
qed

lemma right_boundary_pattern:
  assumes "blank_pattern g1 = blank_pattern g2"
  shows "right_boundary_in_row_until_empty_col g1 row cols start =
         right_boundary_in_row_until_empty_col g2 row cols start"
  unfolding right_boundary_in_row_until_empty_col_def
  by (simp only: boundary_scan_pattern [OF assms])

lemma first_non_empty_row_pattern:
  "blank_pattern g1 = blank_pattern g2 \<Longrightarrow>
   first_non_empty_row_in_cols g1 cols r = first_non_empty_row_in_cols g2 cols r"
proof (induction g1 cols r rule: first_non_empty_row_in_cols.induct)
  case (1 grid cols r)
  note bp = \<open>blank_pattern grid = blank_pattern g2\<close>
  have len: "length grid = length g2" using bp by (rule blank_pattern_length)
  have hit: "any_non_blank grid r cols = any_non_blank g2 r cols"
    using bp by (rule any_non_blank_pattern)
  show ?case
  proof (cases "r < int (length grid)")
    case False
    then show ?thesis
      using len by (simp add: first_non_empty_row_in_cols.simps [of _ cols r])
  next
    case True
    show ?thesis
    proof (cases "any_non_blank g2 r cols")
      case (Inl e)
      then show ?thesis
        using True len hit by (simp add: first_non_empty_row_in_cols.simps [of _ cols r])
    next
      case (Inr h)
      show ?thesis
      proof (cases h)
        case True
        then show ?thesis
          using \<open>r < int (length grid)\<close> len hit Inr
          by (simp add: first_non_empty_row_in_cols.simps [of _ cols r])
      next
        case False
        have "first_non_empty_row_in_cols grid cols (r + 1) =
              first_non_empty_row_in_cols g2 cols (r + 1)"
          using "1.IH" [OF \<open>r < int (length grid)\<close> _ _ bp] hit Inr False by simp
        then show ?thesis
          using \<open>r < int (length grid)\<close> len hit Inr False
          by (simp add: first_non_empty_row_in_cols.simps [of _ cols r])
      qed
    qed
  qed
qed

lemma block_end_pattern:
  "blank_pattern g1 = blank_pattern g2 \<Longrightarrow>
   block_end g1 left right rr = block_end g2 left right rr"
proof (induction g1 left right rr rule: block_end.induct)
  case (1 grid left right rr)
  note bp = \<open>blank_pattern grid = blank_pattern g2\<close>
  have len: "length grid = length g2" using bp by (rule blank_pattern_length)
  have ab: "all_blank grid rr [left..right] = all_blank g2 rr [left..right]"
    using bp by (rule all_blank_pattern)
  show ?case
  proof (cases "rr < int (length grid)")
    case False
    then show ?thesis
      using len by (simp add: block_end.simps [of _ left right rr])
  next
    case True
    show ?thesis
    proof (cases "all_blank g2 rr [left..right]")
      case (Inl e)
      then show ?thesis
        using True len ab by (simp add: block_end.simps [of _ left right rr])
    next
      case (Inr b)
      show ?thesis
      proof (cases b)
        case True
        then show ?thesis
          using \<open>rr < int (length grid)\<close> len ab Inr
          by (simp add: block_end.simps [of _ left right rr])
      next
        case False
        have "block_end grid left right (rr + 1) = block_end g2 left right (rr + 1)"
          using "1.IH" [OF \<open>rr < int (length grid)\<close> _ _ bp] ab Inr False by simp
        then show ?thesis
          using \<open>rr < int (length grid)\<close> len ab Inr False
          by (simp add: block_end.simps [of _ left right rr])
      qed
    qed
  qed
qed

lemma find_blocks_loop_pattern_le:
  assumes "find_blocks_loop g1 cols blocks r = Some y"
    and "blank_pattern g1 = blank_pattern g2"
  shows "find_blocks_loop g2 cols blocks r = Some y"
  using assms
proof (induction arbitrary: g2 rule: find_blocks_loop.raw_induct [rotated 1, consumes 1])
  case (1 loop g1 cols blocks r y)
  note IH = "1"(1) and body = "1"(2) and bp = "1"(3)
  note eqs = first_non_empty_row_pattern [OF bp] right_boundary_pattern [OF bp]
    block_end_pattern [OF bp]
  show ?case
  proof (cases "first_non_empty_row_in_cols g2 cols r")
    case (Inl e)
    with body show ?thesis
      by (subst find_blocks_loop.simps) (simp add: eqs)
  next
    case (Inr t)
    show ?thesis
    proof (cases t)
      case None
      with body Inr show ?thesis
        by (subst find_blocks_loop.simps) (simp add: eqs)
    next
      case (Some top_row)
      show ?thesis
      proof (cases "right_boundary_in_row_until_empty_col g2 top_row cols (py_min cols)")
        case (Inl e)
        with body Inr Some show ?thesis
          by (subst find_blocks_loop.simps) (simp add: eqs)
      next
        case rb: (Inr right)
        show ?thesis
        proof (cases "block_end g2 (py_min cols) right top_row")
          case (Inl e)
          with body Inr Some rb show ?thesis
            by (subst find_blocks_loop.simps) (simp add: eqs)
        next
          case be: (Inr rr)
          from body Inr Some rb be
          have "loop g1 cols (blocks @ [(top_row, rr - 1, py_min cols, right)]) (rr - 1 + 1) = Some y"
            by (simp add: eqs)
          from IH [OF this bp]
          show ?thesis
            using Inr Some rb be by (subst find_blocks_loop.simps) simp
        qed
      qed
    qed
  qed
qed

lemma find_blocks_loop_pattern:
  assumes "blank_pattern g1 = blank_pattern g2"
  shows "find_blocks_loop g1 cols blocks r = find_blocks_loop g2 cols blocks r"
proof (cases "find_blocks_loop g1 cols blocks r")
  case (Some y)
  then show ?thesis using find_blocks_loop_pattern_le [OF Some assms] by simp
next
  case None
  show ?thesis
  proof (cases "find_blocks_loop g2 cols blocks r")
    case None
    with \<open>find_blocks_loop g1 cols blocks r = None\<close> show ?thesis by simp
  next
    case (Some y)
    from find_blocks_loop_pattern_le [OF Some assms [symmetric]] None show ?thesis by simp
  qed
qed

text \<open>
  Claim C7. Two grids of equal dimensions whose cells agree pointwise on blankness get the
  same result from \<open>find_table_blocks_in_section\<close> for the same section columns and
  section row: the same rectangles, the same error, or no result on either. The text
  of a cell, a date-window token included, has no influence on the segmentation.
\<close>

theorem find_table_blocks_blank_pattern:
  assumes "blank_pattern g1 = blank_pattern g2"
  shows "find_table_blocks_in_section g1 section_cols section_row =
         find_table_blocks_in_section g2 section_cols section_row"
  unfolding find_table_blocks_in_section_def
  by (simp add: find_blocks_loop_pattern [OF assms])

theorem find_table_blocks_blank_pattern_witness:
  "blank_pattern grid_dates = blank_pattern grid_labels \<and>
   find_table_blocks_in_section grid_dates [0, 1] 0 =
     find_table_blocks_in_section grid_labels [0, 1] 0 \<and>
   find_table_blocks_in_section grid_dates [0, 1] 0 = Some (Inr [(1, 2, 0, 1), (4, 4, 0, 0)])"
proof -
  have pat: "blank_pattern grid_dates = blank_pattern grid_labels"
    by (simp add: blank_pattern_def grid_dates_def grid_labels_def str_eval)
  have val: "find_table_blocks_in_section grid_dates [0, 1] 0 =
      Some (Inr [(1, 2, 0, 1), (4, 4, 0, 0)])"
    by (simp add: grid_dates_def str_eval grid_eval block_eval)
  from find_table_blocks_blank_pattern [OF pat, of "[0, 1]" 0] pat val show ?thesis
    by simp
qed

section \<open>Properties of the section detector\<close>

lemmas section_eval = consecutive_blank_headers_in_col_def column_has_any_data.simps
  fill_run.simps section_scan.simps section_cell_def map_section_labels_by_col_def

lemma fill_run_extent:
  "fill_run grid hr ds S width label m c = Inr (c2, m') \<Longrightarrow>
   c \<le> c2 \<and> (c2 < width \<longrightarrow> run_stops grid hr ds S c2 = Inr True) \<and>
   (c \<le> width \<longrightarrow> c2 \<le> width) \<and>
   (\<forall>k. c \<le> k \<and> k < c2 \<longrightarrow> run_stops grid hr ds S k = Inr False \<and> m' k = Some label) \<and>
   (\<forall>k. \<not> (c \<le> k \<and> k < c2) \<longrightarrow> m' k = m k)"
proof (induction grid hr ds S width label m c rule: fill_run.induct)
  case (1 grid hr ds S width label m c)
  note unf = fill_run.simps [of grid hr ds S width label m c]
  show ?case
  proof (cases "c < width")
    case False
    with "1.prems" have "c2 = c" "m' = m" by (simp_all add: unf)
    with False show ?thesis by auto
  next
    case True
    from "1.prems" True obtain n d where
      n: "consecutive_blank_headers_in_col grid c hr = Inr n" and
      d: "column_has_any_data grid c ds = Inr d"
      by (auto simp: unf split: sum.splits)
    show ?thesis
    proof (cases "n \<ge> S \<or> \<not> d")
      case stop: True
      with "1.prems" True n d have "c2 = c" "m' = m" by (simp_all add: unf)
      with stop n d show ?thesis by (auto simp: run_stops_def)
    next
      case go: False
      with "1.prems" True n d
      have rec: "fill_run grid hr ds S width label (if d then m(c \<mapsto> label) else m) (c + 1)
              = Inr (c2, m')"
        by (simp add: unf)
      note IH = "1.IH" [OF True n d refl refl go d rec]
      from go have dT: "d" by simp
      have here: "run_stops grid hr ds S c = Inr False"
        using go n d by (simp add: run_stops_def)
      from IH have le: "c + 1 \<le> c2" by blast
      from IH have keep: "\<And>k. \<not> (c + 1 \<le> k \<and> k < c2) \<Longrightarrow> m' k = (m(c \<mapsto> label)) k"
        using dT by simp
      from IH have inner: "\<And>k. c + 1 \<le> k \<Longrightarrow> k < c2 \<Longrightarrow>
          run_stops grid hr ds S k = Inr False \<and> m' k = Some label"
        by blast
      have a: "c \<le> c2" using le by simp
      have b: "c2 < width \<longrightarrow> run_stops grid hr ds S c2 = Inr True" using IH by blast
      have c': "c \<le> width \<longrightarrow> c2 \<le> width" using IH True by simp
      have d': "\<forall>k. c \<le> k \<and> k < c2 \<longrightarrow> run_stops grid hr ds S k = Inr False \<and> m' k = Some label"
      proof (intro allI impI)
        fix k assume k: "c \<le> k \<and> k < c2"
        show "run_stops grid hr ds S k = Inr False \<and> m' k = Some label"
        proof (cases "k = c")
          case True
          with keep [of c] here show ?thesis by simp
        next
          case False
          with k inner [of k] show ?thesis by simp
        qed
      qed
      have e: "\<forall>k. \<not> (c \<le> k \<and> k < c2) \<longrightarrow> m' k = m k"
      proof (intro allI impI)
        fix k assume k: "\<not> (c \<le> k \<and> k < c2)"
        with le have "k \<noteq> c" by auto
        moreover from k have "\<not> (c + 1 \<le> k \<and> k < c2)" by auto
        ultimately show "m' k = m k" using keep [of k] by simp
      qed
      from a b c' d' e show ?thesis by blast
    qed
  qed
qed

text \<open>
  Claim C3, as the code has it. A forward-fill that starts at column \<open>c\<close> labels
  exactly the columns \<open>c .. c2 - 1\<close>, where \<open>c2\<close> is the first column from \<open>c\<close> on
  that either has no data from the data start row down or has at least \<open>S\<close> blank
  cells among its own header rows, or is the width of the grid when no column stops
  the run. The separator test counts blank header cells within that one column; it is
  not a run of \<open>S\<close> consecutive columns with a blank section-row cell. Scanning
  resumes at column \<open>c2 + 1\<close> and passes over blank section-row cells.
\<close>

theorem section_fill_extent:
  assumes "fill_run grid hr ds S width label m c = Inr (c2, m')"
  shows "c \<le> c2 \<and> (c \<le> width \<longrightarrow> c2 \<le> width) \<and>
     (c2 < width \<longrightarrow> run_stops grid hr ds S c2 = Inr True) \<and>
     (\<forall>k. c \<le> k \<and> k < c2 \<longrightarrow> run_stops grid hr ds S k = Inr False \<and> m' k = Some label) \<and>
     (\<forall>k. \<not> (c \<le> k \<and> k < c2) \<longrightarrow> m' k = m k) \<and>
     (\<forall>cl. c < width \<and> section_cell grid sr c = Inr cl \<and> \<not> is_blank cl \<and> label = strip cl \<longrightarrow>
        section_scan grid sr hr ds S width m c = section_scan grid sr hr ds S width m' (c2 + 1)) \<and>
     (\<forall>cl m0 c0. c0 < width \<and> section_cell grid sr c0 = Inr cl \<and> is_blank cl \<longrightarrow>
        section_scan grid sr hr ds S width m0 c0 = section_scan grid sr hr ds S width m0 (c0 + 1))"
proof -
  note ext = fill_run_extent [OF assms]
  have resume: "section_scan grid sr hr ds S width m c = section_scan grid sr hr ds S width m' (c2 + 1)"
    if "c < width" "section_cell grid sr c = Inr cl" "\<not> is_blank cl" "label = strip cl" for cl
    using that assms by (subst section_scan.simps) simp
  have skip: "section_scan grid sr hr ds S width m0 c0 = section_scan grid sr hr ds S width m0 (c0 + 1)"
    if "c0 < width" "section_cell grid sr c0 = Inr cl" "is_blank cl" for cl m0 c0
    using that by (subst section_scan.simps) simp
  from ext resume skip show ?thesis by blast
qed

theorem section_fill_extent_witness:
  "fill_run grid_sections 3 3 2 5 (lit ''A'') Map.empty 0 =
     Inr (3, [0 \<mapsto> lit ''A'', 1 \<mapsto> lit ''A'', 2 \<mapsto> lit ''A'']) \<and>
   run_stops grid_sections 3 3 2 3 = Inr True \<and>
   run_stops grid_sections 3 3 2 2 = Inr False \<and>
   section_scan grid_sections 0 3 3 2 5 Map.empty 0 =
     section_scan grid_sections 0 3 3 2 5 [0 \<mapsto> lit ''A'', 1 \<mapsto> lit ''A'', 2 \<mapsto> lit ''A''] 4"
proof -
  have run: "fill_run grid_sections 3 3 2 5 (lit ''A'') Map.empty 0 =
      Inr (3, [0 \<mapsto> lit ''A'', 1 \<mapsto> lit ''A'', 2 \<mapsto> lit ''A''])"
    by (simp add: grid_sections_def str_eval grid_eval section_eval)
  have cl: "section_cell grid_sections 0 0 = Inr (lit ''A'')" "\<not> is_blank (lit ''A'')"
    "lit ''A'' = strip (lit ''A'')"
    by (simp_all add: grid_sections_def str_eval grid_eval section_eval)
  note ext = section_fill_extent [OF run, of 0]
  from ext have "run_stops grid_sections 3 3 2 3 = Inr True" by simp
  moreover from ext have "run_stops grid_sections 3 3 2 2 = Inr False" by simp
  moreover from ext
  have resume: "section_cell grid_sections 0 0 = Inr cl \<Longrightarrow> \<not> is_blank cl \<Longrightarrow> lit ''A'' = strip cl \<Longrightarrow>
     section_scan grid_sections 0 3 3 2 5 Map.empty 0 =
     section_scan grid_sections 0 3 3 2 5 [0 \<mapsto> lit ''A'', 1 \<mapsto> lit ''A'', 2 \<mapsto> lit ''A''] 4" for cl
    by simp
  note resume [OF cl]
  ultimately show ?thesis using run by simp
qed

text \<open>
  The claim as stated fails in both directions with \<open>S = 2\<close>. In \<open>grid_wide\<close> four
  consecutive columns have a blank section-row cell and the label is still filled over
  all of them. In \<open>grid_sep\<close> no section-row cell is blank and both columns have data,
  yet the fill of \<open>A\<close> ends at column 1, whose own header rows hold two blank cells.
\<close>

theorem section_fill_counterexample:
  "map (section_cell grid_wide 0) [1, 2, 3, 4] = [Inr [], Inr [], Inr [], Inr []] \<and>
   map_sum id (\<lambda>m. map m [0, 1, 2, 3, 4]) (map_section_labels_by_col grid_wide 0 2 2 2) =
     Inr [Some (lit ''A''), Some (lit ''A''), Some (lit ''A''), Some (lit ''A''), Some (lit ''A'')] \<and>
   map (section_cell grid_sep 0) [0, 1] = [Inr (lit ''A''), Inr (lit ''B'')] \<and>
   column_has_any_data grid_sep 1 3 = Inr True \<and>
   map_sum id (\<lambda>m. map m [0, 1]) (map_section_labels_by_col grid_sep 0 3 3 2) =
     Inr [Some (lit ''A''), None]"
  by (simp add: grid_wide_def grid_sep_def str_eval grid_eval section_eval)

section \<open>Properties of the normalisation\<close>

lemma dropWhile_last_keep:
  "dropWhile P xs \<noteq> [] \<Longrightarrow> last (dropWhile P xs) = last xs"
proof -
  assume ne: "dropWhile P xs \<noteq> []"
  have "last xs = last (takeWhile P xs @ dropWhile P xs)" by simp
  also have "\<dots> = last (dropWhile P xs)" using ne by (simp only: last_append if_False)
  finally show ?thesis by simp
qed

lemma strip_ends:
  "strip s = [] \<or> (\<not> is_space (hd (strip s)) \<and> \<not> is_space (last (strip s)))"
proof (cases "strip s = []")
  case True
  then show ?thesis by simp
next
  case False
  define t where "t = dropWhile is_space s"
  define u where "u = dropWhile is_space (rev t)"
  have s: "strip s = rev u" by (simp add: strip_def lstrip_def rstrip_def t_def u_def)
  with False have une: "u \<noteq> []" by simp
  then have tne: "t \<noteq> []" by (auto simp: u_def)
  have "\<not> is_space (hd u)" using une unfolding u_def by (rule hd_dropWhile)
  then have l: "\<not> is_space (last (strip s))" using une by (simp add: s last_rev)
  have "last u = last (rev t)" using une unfolding u_def by (rule dropWhile_last_keep)
  then have "hd (strip s) = hd t" using une tne by (simp add: s hd_rev last_rev)
  moreover have "\<not> is_space (hd t)" using tne unfolding t_def by (rule hd_dropWhile)
  ultimately show ?thesis using l by simp
qed

lemma strip_fix:
  assumes "s = [] \<or> (\<not> is_space (hd s) \<and> \<not> is_space (last s))"
  shows "strip s = s"
proof (cases "s = []")
  case True
  then show ?thesis by (simp add: strip_def lstrip_def rstrip_def)
next
  case False
  with assms have h: "\<not> is_space (hd s)" and l: "\<not> is_space (last s)" by simp_all
  have a: "dropWhile is_space s = s" using False h by (cases s) simp_all
  have "dropWhile is_space (rev s) = rev s"
    using False l by (cases "rev s") (simp_all add: last_rev [symmetric] hd_rev)
  with a show ?thesis by (simp add: strip_def lstrip_def rstrip_def)
qed

lemma replace_dashes: "replace_char 8212 45 (replace_char 8211 45 s) = map dash s"
  by (simp add: replace_char_def dash_def)

lemma is_space_dash [simp]: "is_space (dash c) = is_space c"
  by (simp add: dash_def is_space_def)

lemma dash_dash [simp]: "dash (dash c) = dash c"
  by (simp add: dash_def)

lemma dash_space: "is_space c \<Longrightarrow> dash c = c"
  by (auto simp: dash_def is_space_def)

lemma is_space_32 [simp]: "is_space 32"
  by (simp add: is_space_def)

lemma dropWhile_space_dash:
  "dropWhile is_space (map dash cs) = map dash (dropWhile is_space cs)"
  by (simp add: dropWhile_map comp_def)

lemma collapse_map_dash: "collapse_ws (map dash s) = map dash (collapse_ws s)"
proof (induction s rule: collapse_ws.induct)
  case 1
  show ?case by simp
next
  case (2 c cs)
  show ?case
  proof (cases "is_space c")
    case True
    have "dash 32 = 32" by (simp add: dash_def)
    with True 2 show ?thesis by (simp add: dropWhile_space_dash)
  next
    case False
    with 2 show ?thesis by simp
  qed
qed

lemma collapse_hd:
  "s \<noteq> [] \<Longrightarrow> \<not> is_space (hd s) \<Longrightarrow> collapse_ws s \<noteq> [] \<and> hd (collapse_ws s) = hd s"
  by (cases s) simp_all

lemma collapse_last:
  "s \<noteq> [] \<Longrightarrow> \<not> is_space (last s) \<Longrightarrow>
   collapse_ws s \<noteq> [] \<and> \<not> is_space (last (collapse_ws s))"
proof (induction s rule: collapse_ws.induct)
  case 1
  then show ?case by simp
next
  case (2 c cs)
  show ?case
  proof (cases "is_space c")
    case True
    with "2.prems" have cne: "cs \<noteq> []" by auto
    with "2.prems" have lcs: "\<not> is_space (last cs)" by simp
    have dne: "dropWhile is_space cs \<noteq> []"
    proof
      assume "dropWhile is_space cs = []"
      then have "\<forall>x\<in>set cs. is_space x" by (simp add: dropWhile_eq_Nil_conv)
      with cne lcs show False using last_in_set by blast
    qed
    then have "last (dropWhile is_space cs) = last cs" by (rule dropWhile_last_keep)
    with "2.IH"(1) [OF True dne] lcs True show ?thesis by simp
  next
    case False
    show ?thesis
    proof (cases "cs = []")
      case True
      with False show ?thesis by simp
    next
      case cne: False
      with "2.prems" have "\<not> is_space (last cs)" by simp
      with "2.IH"(2) [OF False cne] False show ?thesis by simp
    qed
  qed
qed

lemma collapse_idem: "collapse_ws (collapse_ws s) = collapse_ws s"
proof (induction s rule: collapse_ws.induct)
  case 1
  show ?case by simp
next
  case (2 c cs)
  show ?case
  proof (cases "is_space c")
    case True
    define t where "t = dropWhile is_space cs"
    have keep: "dropWhile is_space (collapse_ws t) = collapse_ws t"
    proof (cases "t = []")
      case True
      then show ?thesis by simp
    next
      case False
      then have "\<not> is_space (hd t)" unfolding t_def by (rule hd_dropWhile)
      with False collapse_hd [of t] have "collapse_ws t \<noteq> []" "\<not> is_space (hd (collapse_ws t))"
        by simp_all
      then show ?thesis by (cases "collapse_ws t") simp_all
    qed
    from "2.IH"(1) [OF True] have "collapse_ws (collapse_ws t) = collapse_ws t" by (simp add: t_def)
    with True keep show ?thesis by (simp add: t_def [symmetric])
  next
    case False
    with "2.IH"(2) show ?thesis by simp
  qed
qed

lemma normalize_text_idem: "normalize_text (normalize_text x) = normalize_text x"
proof -
  define u where "u = strip x"
  define r where "r = collapse_ws (map dash u)"
  have nx: "normalize_text x = r"
    by (simp add: normalize_text_def replace_dashes u_def r_def)
  have ends: "r = [] \<or> (\<not> is_space (hd r) \<and> \<not> is_space (last r))"
  proof (cases "u = []")
    case True
    then show ?thesis by (simp add: r_def)
  next
    case False
    with strip_ends [of x] have "\<not> is_space (hd u)" "\<not> is_space (last u)"
      by (simp_all add: u_def)
    with False have "map dash u \<noteq> []" "\<not> is_space (hd (map dash u))"
      "\<not> is_space (last (map dash u))"
      by (simp_all add: hd_map last_map)
    with collapse_hd [of "map dash u"] collapse_last [of "map dash u"] show ?thesis
      by (simp add: r_def)
  qed
  then have "strip r = r" by (rule strip_fix)
  moreover have "map dash r = r"
    by (simp add: r_def collapse_map_dash [symmetric] comp_def)
  moreover have "collapse_ws r = r" by (simp add: r_def collapse_idem)
  ultimately have "normalize_text r = r"
    by (simp add: normalize_text_def replace_dashes)
  with nx show ?thesis by simp
qed

lemma strip_no_space: "\<forall>c\<in>set s. \<not> is_space c \<Longrightarrow> strip s = s"
proof (rule strip_fix)
  assume a: "\<forall>c\<in>set s. \<not> is_space c"
  show "s = [] \<or> (\<not> is_space (hd s) \<and> \<not> is_space (last s))"
  proof (cases "s = []")
    case True
    then show ?thesis by simp
  next
    case False
    then have "hd s \<in> set s" "last s \<in> set s" by simp_all
    with a show ?thesis by blast
  qed
qed

lemma concat_singletons: "concat (map (\<lambda>i. [f i]) xs) = map f xs"
  by (induction xs) simp_all

lemma py_lower_ascii:
  assumes "\<forall>c\<in>set s. c < 128 \<and> ascii_lower c = c"
  shows "py_lower U s = s"
proof -
  have e: "map (\<lambda>i. if s ! i < 128 then [ascii_lower (s ! i)] else uc_lower U s i) [0..<length s]
      = map (\<lambda>i. [s ! i]) [0..<length s]"
    using assms by (intro map_cong) auto
  have "py_lower U s = concat (map (\<lambda>i. [s ! i]) [0..<length s])"
    by (simp only: py_lower_def e)
  also have "\<dots> = map (\<lambda>i. s ! i) [0..<length s]"
    by (rule concat_singletons)
  also have "\<dots> = s" by (rule map_nth)
  finally show ?thesis .
qed

lemma normalize_header_idem:
  "normalize_header U (normalize_header U x) = normalize_header U x"
proof -
  define r where "r = normalize_header U x"
  have ok: "\<forall>c\<in>set r. header_char c"
    by (auto simp: r_def normalize_header_def header_char_def)
  have nosp: "\<forall>c\<in>set r. \<not> is_space c"
    using ok by (auto simp: header_char_def is_space_def)
  have nobom: "filter (\<lambda>c. c \<noteq> 65279) r = r"
    using ok by (auto simp: header_char_def intro!: filter_True)
  have c1: "clean_text r = r"
    by (simp add: clean_text_def nobom strip_no_space [OF nosp])
  have c2: "py_lower U r = r"
    using ok by (intro py_lower_ascii) (auto simp: header_char_def ascii_lower_def)
  have c3: "filter (\<lambda>c. (97 \<le> c \<and> c \<le> 122) \<or> (48 \<le> c \<and> c \<le> 57)) r = r"
    using ok by (auto simp: header_char_def intro!: filter_True)
  have "normalize_header U r = r"
    by (simp only: normalize_header_def c1 c2 c3)
  then show ?thesis by (simp only: r_def)
qed


text \<open>
  Claim C9. Label normalisation is idempotent: \<open>normalize(normalize(x)) = normalize(x)\<close>
  for every string \<open>x\<close>, for \<open>normalize_text\<close> and, whatever the Unicode tables
  say, for \<open>normalize_header\<close>.
\<close>

theorem normalize_idempotent:
  "normalize_text (normalize_text x) = normalize_text x \<and>
   normalize_header U (normalize_header U x) = normalize_header U x"
  by (simp only: normalize_text_idem normalize_header_idem)

section \<open>Properties of the key index and the key sets\<close>

lemma build_rows_map_of:
  "build_rows ki rows rm dups = (rm', dups') \<Longrightarrow>
   map_of rm' k = (case map_of rm k of Some r \<Rightarrow> Some r | None \<Rightarrow> List.find (\<lambda>r. row_key ki r = k) rows)"
proof (induction rows arbitrary: rm dups)
  case Nil
  then show ?case by (auto split: option.splits)
next
  case (Cons r rs)
  define key where "key = row_key ki r"
  show ?case
  proof (cases "key \<in> fst ` set rm")
    case True
    with Cons.prems have rec: "build_rows ki rs rm (dups @ [key]) = (rm', dups')"
      by (simp add: key_def Let_def)
    note IH = Cons.IH [OF rec]
    show ?thesis
    proof (cases "map_of rm k")
      case None
      then have "k \<notin> fst ` set rm" by (simp add: map_of_eq_None_iff)
      with True have "key \<noteq> k" by auto
      with None IH show ?thesis by (simp add: key_def)
    next
      case (Some a)
      with IH show ?thesis by simp
    qed
  next
    case False
    with Cons.prems have rec: "build_rows ki rs (rm @ [(key, r)]) dups = (rm', dups')"
      by (simp add: key_def Let_def)
    note IH = Cons.IH [OF rec]
    from False have none: "map_of rm key = None" by (simp add: map_of_eq_None_iff)
    show ?thesis
    proof (cases "k = key")
      case True
      with IH none show ?thesis by (simp add: key_def map_add_def)
    next
      case False
      with IH show ?thesis by (auto simp: key_def map_add_def split: option.splits)
    qed
  qed
qed

lemma build_rows_count:
  "build_rows ki rows rm dups = (rm', dups') \<Longrightarrow>
   count_list dups' k + (if k \<in> fst ` set rm then 0 else if k \<in> row_key ki ` set rows then 1 else 0)
     = count_list dups k + count_list (map (row_key ki) rows) k"
proof (induction rows arbitrary: rm dups)
  case Nil
  then show ?case by simp
next
  case (Cons r rs)
  define key where "key = row_key ki r"
  define n where "n = count_list (map (row_key ki) rs) k"
  have img: "k \<in> row_key ki ` set (r # rs) \<longleftrightarrow> k = key \<or> k \<in> row_key ki ` set rs"
    by (auto simp: key_def)
  have cnt: "count_list (map (row_key ki) (r # rs)) k = (if k = key then n + 1 else n)"
    by (auto simp: key_def n_def)
  show ?case
  proof (cases "key \<in> fst ` set rm")
    case True
    with Cons.prems have rec: "build_rows ki rs rm (dups @ [key]) = (rm', dups')"
      by (simp add: key_def Let_def)
    from Cons.IH [OF rec]
    have IH: "count_list dups' k + (if k \<in> fst ` set rm then 0 else if k \<in> row_key ki ` set rs then 1 else 0)
        = count_list (dups @ [key]) k + n"
      by (simp only: n_def)
    show ?thesis
    proof (cases "k = key")
      case keq: True
      with True IH show ?thesis unfolding cnt img by (auto split: if_splits)
    next
      case kne: False
      with IH show ?thesis unfolding cnt img by (auto split: if_splits)
    qed
  next
    case False
    with Cons.prems have rec: "build_rows ki rs (rm @ [(key, r)]) dups = (rm', dups')"
      by (simp add: key_def Let_def)
    from Cons.IH [OF rec]
    have IH: "count_list dups' k + (if k \<in> fst ` set (rm @ [(key, r)]) then 0
          else if k \<in> row_key ki ` set rs then 1 else 0)
        = count_list dups k + n"
      by (simp only: n_def)
    show ?thesis
    proof (cases "k = key")
      case keq: True
      with False IH show ?thesis unfolding cnt img by (auto split: if_splits)
    next
      case kne: False
      then have "k \<in> fst ` set (rm @ [(key, r)]) \<longleftrightarrow> k \<in> fst ` set rm" by auto
      with kne IH show ?thesis unfolding cnt img by (auto split: if_splits)
    qed
  qed
qed

lemma build_rows_distinct:
  "build_rows ki rows rm dups = (rm', dups') \<Longrightarrow> distinct (map fst rm) \<Longrightarrow> distinct (map fst rm')"
proof (induction rows arbitrary: rm dups)
  case Nil
  then show ?case by simp
next
  case (Cons r rs)
  show ?case
  proof (cases "row_key ki r \<in> fst ` set rm")
    case True
    with Cons.prems have "build_rows ki rs rm (dups @ [row_key ki r]) = (rm', dups')"
      by (simp add: Let_def)
    from Cons.IH [OF this Cons.prems(2)] show ?thesis .
  next
    case False
    with Cons.prems have rec: "build_rows ki rs (rm @ [(row_key ki r, r)]) dups = (rm', dups')"
      by (simp add: Let_def)
    from False Cons.prems(2) have "distinct (map fst (rm @ [(row_key ki r, r)]))" by auto
    from Cons.IH [OF rec this] show ?thesis .
  qed
qed

lemma map_of_dict_set: "map_of (dict_set d k v) k' = (if k' = k then Some v else map_of d k')"
  by (induction d k v rule: dict_set.induct) auto

lemma map_of_dict_setdefault:
  "map_of (dict_setdefault d k v) k' =
     (case map_of d k' of Some x \<Rightarrow> Some x | None \<Rightarrow> if k' = k then Some v else None)"
proof (cases "k \<in> fst ` set d")
  case True
  show ?thesis
  proof (cases "map_of d k'")
    case None
    then have "k' \<notin> fst ` set d" by (simp add: map_of_eq_None_iff)
    with True have "k' \<noteq> k" by auto
    with None True show ?thesis by (simp add: dict_setdefault_def)
  next
    case (Some x)
    with True show ?thesis by (simp add: dict_setdefault_def)
  qed
next
  case False
  then show ?thesis
    by (cases "map_of d k'") (simp_all add: dict_setdefault_def map_add_def)
qed

lemma map_of_map_update:
  "map_of (map (\<lambda>(k', e). if k' = k then (k', g e) else (k', e)) A) k'' =
     (if k'' = k then map_option g (map_of A k) else map_of A k'')"
  by (induction A) auto

lemma agg_value_add:
  "agg_value (agg_add r A) k s =
     (if key_tuple r = k \<and> rec_source r = s then Some (rec_value_num r) else agg_value A k s)"
proof -
  define k0 where "k0 = key_tuple r"
  have kt: "key_tuple r = k0" by (simp add: k0_def)
  define A1 where "A1 = (if k0 \<notin> fst ` set A
      then A @ [(k0, \<lparr>agg_values = [], agg_texts = [], agg_meta = k0\<rparr>)] else A)"
  define g where "g = (\<lambda>e::agg_entry. e\<lparr>agg_values := dict_set (agg_values e) (rec_source r) (rec_value_num r),
      agg_texts := dict_set (agg_texts e) (rec_source r) (rec_value_text r)\<rparr>)"
  have add: "agg_add r A = map (\<lambda>(k', e). if k' = k0 then (k', g e) else (k', e)) A1"
    unfolding agg_add_def Let_def k0_def A1_def g_def by (rule refl)
  have A1_other: "map_of A1 k = map_of A k" if "k \<noteq> k0"
    using that by (auto simp: A1_def map_add_def split: option.splits)
  have A1_k0: "map_of A1 k0 = (case map_of A k0 of Some e \<Rightarrow> Some e
      | None \<Rightarrow> Some \<lparr>agg_values = [], agg_texts = [], agg_meta = k0\<rparr>)"
  proof (cases "map_of A k0")
    case None
    then have "k0 \<notin> fst ` set A" by (simp add: map_of_eq_None_iff)
    with None show ?thesis by (simp add: A1_def map_add_def)
  next
    case (Some e)
    then have "k0 \<in> fst ` set A" by (metis map_of_eq_None_iff option.distinct(1))
    with Some show ?thesis by (simp add: A1_def)
  qed
  show ?thesis
  proof (cases "k = k0")
    case False
    then show ?thesis
      by (auto simp: agg_value_def add map_of_map_update A1_other kt)
  next
    case True
    then show ?thesis
      by (auto simp: agg_value_def add map_of_map_update A1_k0 g_def map_of_dict_set kt
          split: option.splits)
  qed
qed

lemma agg_text_add:
  "agg_text (agg_add r A) k s =
     (if key_tuple r = k \<and> rec_source r = s then Some (rec_value_text r) else agg_text A k s)"
proof -
  define k0 where "k0 = key_tuple r"
  have kt: "key_tuple r = k0" by (simp add: k0_def)
  define A1 where "A1 = (if k0 \<notin> fst ` set A
      then A @ [(k0, \<lparr>agg_values = [], agg_texts = [], agg_meta = k0\<rparr>)] else A)"
  define g where "g = (\<lambda>e::agg_entry. e\<lparr>agg_values := dict_set (agg_values e) (rec_source r) (rec_value_num r),
      agg_texts := dict_set (agg_texts e) (rec_source r) (rec_value_text r)\<rparr>)"
  have add: "agg_add r A = map (\<lambda>(k', e). if k' = k0 then (k', g e) else (k', e)) A1"
    unfolding agg_add_def Let_def k0_def A1_def g_def by (rule refl)
  have A1_other: "map_of A1 k = map_of A k" if "k \<noteq> k0"
    using that by (auto simp: A1_def map_add_def split: option.splits)
  have A1_k0: "map_of A1 k0 = (case map_of A k0 of Some e \<Rightarrow> Some e
      | None \<Rightarrow> Some \<lparr>agg_values = [], agg_texts = [], agg_meta = k0\<rparr>)"
  proof (cases "map_of A k0")
    case None
    then have "k0 \<notin> fst ` set A" by (simp add: map_of_eq_None_iff)
    with None show ?thesis by (simp add: A1_def map_add_def)
  next
    case (Some e)
    then have "k0 \<in> fst ` set A" by (metis map_of_eq_None_iff option.distinct(1))
    with Some show ?thesis by (simp add: A1_def)
  qed
  show ?thesis
  proof (cases "k = k0")
    case False
    then show ?thesis
      by (auto simp: agg_text_def add map_of_map_update A1_other kt)
  next
    case True
    then show ?thesis
      by (auto simp: agg_text_def add map_of_map_update A1_k0 g_def map_of_dict_set kt
          split: option.splits)
  qed
qed

lemma agg_fold_last:
  "agg_value (fold agg_add recs []) k s =
     (if records_of k s recs = [] then None else Some (rec_value_num (last (records_of k s recs)))) \<and>
   agg_text (fold agg_add recs []) k s =
     (if records_of k s recs = [] then None else Some (rec_value_text (last (records_of k s recs))))"
proof (induction recs rule: rev_induct)
  case Nil
  show ?case by (simp add: agg_value_def agg_text_def records_of_def)
next
  case (snoc r recs)
  then show ?case
    by (simp add: agg_value_add agg_text_add records_of_def)
qed

lemma fill_sources_values:
  "map_of (agg_values (fill_sources srcs e)) s =
     (case map_of (agg_values e) s of Some v \<Rightarrow> Some v | None \<Rightarrow> if s \<in> set srcs then Some None else None)"
  unfolding fill_sources_def
  by (induction srcs arbitrary: e) (auto simp: map_of_dict_setdefault split: option.splits)

lemma fill_sources_texts:
  "map_of (agg_texts (fill_sources srcs e)) s =
     (case map_of (agg_texts e) s of Some v \<Rightarrow> Some v | None \<Rightarrow> if s \<in> set srcs then Some [] else None)"
  unfolding fill_sources_def
  by (induction srcs arbitrary: e) (auto simp: map_of_dict_setdefault split: option.splits)

lemma map_of_map_snd: "map_of (map (\<lambda>(k, e). (k, f e)) A) k = map_option f (map_of A k)"
  by (induction A) auto

lemma compare_records_last:
  assumes "records_of k s recs \<noteq> []"
  shows "agg_value (compare_records_agg recs srcs) k s = Some (rec_value_num (last (records_of k s recs)))"
    and "agg_text (compare_records_agg recs srcs) k s = Some (rec_value_text (last (records_of k s recs)))"
proof -
  from agg_fold_last [of recs k s] assms
  have v: "agg_value (fold agg_add recs []) k s = Some (rec_value_num (last (records_of k s recs)))"
    and t: "agg_text (fold agg_add recs []) k s = Some (rec_value_text (last (records_of k s recs)))"
    by simp_all
  from v show "agg_value (compare_records_agg recs srcs) k s = Some (rec_value_num (last (records_of k s recs)))"
    by (auto simp: agg_value_def compare_records_agg_def map_of_map_snd fill_sources_values
        split: option.splits)
  from t show "agg_text (compare_records_agg recs srcs) k s = Some (rec_value_text (last (records_of k s recs)))"
    by (auto simp: agg_text_def compare_records_agg_def map_of_map_snd fill_sources_texts
        split: option.splits)
qed

lemmas key_eval = normalize_str_def py_lower_def ascii_lower_def ascii_tables_def header_index_map_def
  KEY_COLUMNS_def build_row_map_def row_key_def cell_or_empty_def enumerate_eq_zip

lemma sorted_diff_list:
  "sorted_list_of_set (set xs - set ys) = sort (remdups (filter (\<lambda>k. k \<notin> set ys) xs))"
proof -
  have "set xs - set ys = set (filter (\<lambda>k. k \<notin> set ys) xs)" by auto
  then show ?thesis by (simp only: sorted_list_of_set_sort_remdups)
qed

lemma sorted_inter_list:
  "sorted_list_of_set (set xs \<inter> set ys) = sort (remdups (filter (\<lambda>k. k \<in> set ys) xs))"
proof -
  have "set xs \<inter> set ys = set (filter (\<lambda>k. k \<in> set ys) xs)" by auto
  then show ?thesis by (simp only: sorted_list_of_set_sort_remdups)
qed

lemmas key_list_eval = missing_keys_def [unfolded sorted_diff_list] extra_keys_def [unfolded sorted_diff_list]
  shared_keys_def [unfolded sorted_inter_list]


text \<open>
  Claim C1, as the code has it. \<open>build_row_map\<close> keeps, for every key, the first row
  of that key in scan order (\<open>List.find\<close>), and appends the key to \<open>duplicates\<close> once
  for each later row of the same key: a key that occurs \<open>n > 0\<close> times among the rows is
  flagged \<open>n - 1\<close> times. \<open>compare_records\<close> of rbuSpace.py has no duplicate list; the
  value and the text it holds for a key and a source are those of the last record of
  that key from that source.
\<close>

theorem first_kept_duplicates_flagged:
  "(build_row_map U rows headers key_cols = Inr (row_map, duplicates) \<longrightarrow>
      (\<exists>key_indexes.
          lookup_all (header_index_map U headers) (map (normalize_str U) key_cols) = Inr key_indexes \<and>
          distinct (map fst row_map) \<and>
          (\<forall>k. map_of row_map k = List.find (\<lambda>r. row_key key_indexes r = k) rows \<and>
               count_list duplicates k + (if k \<in> row_key key_indexes ` set rows then 1 else 0)
                 = count_list (map (row_key key_indexes) rows) k))) \<and>
   (records_of k src all_records \<noteq> [] \<longrightarrow>
      agg_value (compare_records_agg all_records sources_in_order) k src
        = Some (rec_value_num (last (records_of k src all_records))) \<and>
      agg_text (compare_records_agg all_records sources_in_order) k src
        = Some (rec_value_text (last (records_of k src all_records))))"
proof (intro conjI impI)
  assume b: "build_row_map U rows headers key_cols = Inr (row_map, duplicates)"
  then obtain ki where ki: "lookup_all (header_index_map U headers) (map (normalize_str U) key_cols) = Inr ki"
    and br: "build_rows ki rows [] [] = (row_map, duplicates)"
    by (auto simp: build_row_map_def split: sum.splits)
  have d: "distinct (map fst row_map)" using build_rows_distinct [OF br] by simp
  have m: "map_of row_map k = List.find (\<lambda>r. row_key ki r = k) rows" for k
    using build_rows_map_of [OF br, of k] by simp
  have c: "count_list duplicates k + (if k \<in> row_key ki ` set rows then 1 else 0)
      = count_list (map (row_key ki) rows) k" for k
    using build_rows_count [OF br, of k] by simp
  from ki d m c
  show "\<exists>key_indexes.
          lookup_all (header_index_map U headers) (map (normalize_str U) key_cols) = Inr key_indexes \<and>
          distinct (map fst row_map) \<and>
          (\<forall>k. map_of row_map k = List.find (\<lambda>r. row_key key_indexes r = k) rows \<and>
               count_list duplicates k + (if k \<in> row_key key_indexes ` set rows then 1 else 0)
                 = count_list (map (row_key key_indexes) rows) k)"
    by blast
next
  assume "records_of k src all_records \<noteq> []"
  then show "agg_value (compare_records_agg all_records sources_in_order) k src
        = Some (rec_value_num (last (records_of k src all_records)))"
    by (rule compare_records_last(1))
next
  assume "records_of k src all_records \<noteq> []"
  then show "agg_text (compare_records_agg all_records sources_in_order) k src
        = Some (rec_value_text (last (records_of k src all_records)))"
    by (rule compare_records_last(2))
qed

theorem first_kept_duplicates_flagged_witness:
  "build_row_map ascii_tables ex_data1 ex_headers KEY_COLUMNS =
     Inr ([([lit ''A'', lit ''1''], [lit ''A'', lit ''1'', lit ''x'']),
           ([lit ''B'', lit ''2''], [lit ''B'', lit ''2'', lit ''y''])], [[lit ''A'', lit ''1'']]) \<and>
   lookup_all (header_index_map ascii_tables ex_headers) (map (normalize_str ascii_tables) KEY_COLUMNS)
     = Inr [0, 1] \<and>
   List.find (\<lambda>r. row_key [0, 1] r = [lit ''A'', lit ''1'']) ex_data1
     = Some [lit ''A'', lit ''1'', lit ''x''] \<and>
   count_list (map (row_key [0, 1]) ex_data1) [lit ''A'', lit ''1''] = 2 \<and>
   records_of (key_tuple rec_first) (lit ''a.csv'') [rec_first, rec_second] = [rec_first, rec_second] \<and>
   agg_value (compare_records_agg [rec_first, rec_second] [lit ''a.csv'', lit ''b.csv''])
     (key_tuple rec_first) (lit ''a.csv'') = Some (Some (Fin 2))"
proof -
  define row_map where "row_map = [([lit ''A'', lit ''1''], [lit ''A'', lit ''1'', lit ''x'']),
           ([lit ''B'', lit ''2''], [lit ''B'', lit ''2'', lit ''y''])]"
  have b: "build_row_map ascii_tables ex_data1 ex_headers KEY_COLUMNS =
     Inr (row_map, [[lit ''A'', lit ''1'']])"
    by (simp add: row_map_def ex_data1_def ex_headers_def key_eval str_eval Let_def)
  have ki: "lookup_all (header_index_map ascii_tables ex_headers)
      (map (normalize_str ascii_tables) KEY_COLUMNS) = Inr [0, 1]"
    by (simp add: ex_headers_def key_eval str_eval Let_def)
  have recs: "records_of (key_tuple rec_first) (lit ''a.csv'') [rec_first, rec_second]
      = [rec_first, rec_second]"
    by (simp add: records_of_def key_tuple_def rec_first_def rec_second_def lit_def)
  note inst = first_kept_duplicates_flagged [of ascii_tables ex_data1 ex_headers KEY_COLUMNS row_map
      "[[lit ''A'', lit ''1'']]" "key_tuple rec_first" "lit ''a.csv''" "[rec_first, rec_second]"
      "[lit ''a.csv'', lit ''b.csv'']"]
  from inst b obtain ki' where
    ki': "lookup_all (header_index_map ascii_tables ex_headers)
      (map (normalize_str ascii_tables) KEY_COLUMNS) = Inr ki'" and
    all: "\<And>k. map_of row_map k = List.find (\<lambda>r. row_key ki' r = k) ex_data1 \<and>
       count_list [[lit ''A'', lit ''1'']] k + (if k \<in> row_key ki' ` set ex_data1 then 1 else 0)
         = count_list (map (row_key ki') ex_data1) k"
    by blast
  from ki ki' have kieq: "ki' = [0, 1]" by simp
  from all [of "[lit ''A'', lit ''1'']"] have m: "map_of row_map [lit ''A'', lit ''1''] =
      List.find (\<lambda>r. row_key [0, 1] r = [lit ''A'', lit ''1'']) ex_data1"
    unfolding kieq by (rule conjunct1)
  have f: "List.find (\<lambda>r. row_key [0, 1] r = [lit ''A'', lit ''1'']) ex_data1
     = Some [lit ''A'', lit ''1'', lit ''x'']"
    using m by (simp add: row_map_def)
  from all [of "[lit ''A'', lit ''1'']"] have "count_list [[lit ''A'', lit ''1'']] [lit ''A'', lit ''1''] +
      (if [lit ''A'', lit ''1''] \<in> row_key [0, 1] ` set ex_data1 then 1 else 0)
      = count_list (map (row_key [0, 1]) ex_data1) [lit ''A'', lit ''1'']"
    unfolding kieq by (rule conjunct2)
  moreover have "[lit ''A'', lit ''1''] \<in> row_key [0, 1] ` set ex_data1"
    by (simp add: ex_data1_def row_key_def cell_or_empty_def str_eval)
  ultimately have c: "count_list (map (row_key [0, 1]) ex_data1) [lit ''A'', lit ''1''] = 2"
    by simp
  from inst recs
  have v: "agg_value (compare_records_agg [rec_first, rec_second] [lit ''a.csv'', lit ''b.csv''])
     (key_tuple rec_first) (lit ''a.csv'') = Some (rec_value_num rec_second)"
    by simp
  have "rec_value_num rec_second = Some (Fin 2)" by (simp add: rec_second_def)
  with v b ki f c recs show ?thesis by (simp add: row_map_def)
qed

text \<open>
  The claim as stated fails for \<open>compare_records\<close>: of two records of one source with
  the same key, the aggregate holds the value and the text of the second, and the first
  record's value appears nowhere in it.
\<close>

theorem compare_records_overwrites_counterexample:
  "key_tuple rec_first = key_tuple rec_second \<and> rec_source rec_first = rec_source rec_second \<and>
   rec_value_num rec_first = Some (Fin 1) \<and>
   compare_records_agg [rec_first, rec_second] [lit ''a.csv'']
     = [(key_tuple rec_first,
         \<lparr>agg_values = [(lit ''a.csv'', Some (Fin 2))], agg_texts = [(lit ''a.csv'', lit ''2'')],
          agg_meta = key_tuple rec_first\<rparr>)]"
  by (simp add: compare_records_agg_def agg_add_def fill_sources_def dict_setdefault_def key_tuple_def
      rec_first_def rec_second_def lit_def Let_def)

text \<open>
  Claim C8. The keys missing from the second map, the keys missing from the first and the
  shared keys are pairwise disjoint and together are all keys of the two maps, for the
  three lists of \<open>compare_key_based\<close> and for the three sets of \<open>compare_by_row_key\<close>;
  the result of \<open>compare_key_based\<close> reports these lists and the number of shared keys.
\<close>

theorem key_sets_partition:
  "set (missing_keys a b) \<inter> set (extra_keys a b) = {} \<and>
   set (missing_keys a b) \<inter> set (shared_keys a b) = {} \<and>
   set (extra_keys a b) \<inter> set (shared_keys a b) = {} \<and>
   set (missing_keys a b) \<union> set (extra_keys a b) \<union> set (shared_keys a b)
     = set (map fst a) \<union> set (map fst b) \<and>
   set (rk_extra_file1 c d) \<inter> set (rk_extra_file2 c d) = {} \<and>
   set (rk_extra_file1 c d) \<inter> rk_common_keys c d = {} \<and>
   set (rk_extra_file2 c d) \<inter> rk_common_keys c d = {} \<and>
   set (rk_extra_file1 c d) \<union> set (rk_extra_file2 c d) \<union> rk_common_keys c d
     = set (map fst c) \<union> set (map fst d) \<and>
   (compare_key_based U headers1 data1 headers2 data2 = Inr res \<longrightarrow>
      (\<exists>row_map1 dup1 row_map2 dup2.
          build_row_map U data1 headers1 KEY_COLUMNS = Inr (row_map1, dup1) \<and>
          build_row_map U data2 headers2 KEY_COLUMNS = Inr (row_map2, dup2) \<and>
          cmp_missing_in_report res = missing_keys row_map1 row_map2 \<and>
          cmp_extra_in_report res = extra_keys row_map1 row_map2 \<and>
          cmp_common_keys res = length (shared_keys row_map1 row_map2)))"
proof -
  have sets: "set (missing_keys a b) = set (map fst a) - set (map fst b)"
    "set (extra_keys a b) = set (map fst b) - set (map fst a)"
    "set (shared_keys a b) = set (map fst a) \<inter> set (map fst b)"
    by (simp_all add: missing_keys_def extra_keys_def shared_keys_def)
  have rk: "set (rk_extra_file1 c d) = set (map fst c) - set (map fst d)"
    "set (rk_extra_file2 c d) = set (map fst d) - set (map fst c)"
    "rk_common_keys c d = set (map fst c) \<inter> set (map fst d)"
    by (simp_all add: rk_extra_file1_def rk_extra_file2_def rk_common_keys_def)
  have p1: "set (missing_keys a b) \<inter> set (extra_keys a b) = {}" unfolding sets by blast
  have p2: "set (missing_keys a b) \<inter> set (shared_keys a b) = {}" unfolding sets by blast
  have p3: "set (extra_keys a b) \<inter> set (shared_keys a b) = {}" unfolding sets by blast
  have p4: "set (missing_keys a b) \<union> set (extra_keys a b) \<union> set (shared_keys a b)
     = set (map fst a) \<union> set (map fst b)" unfolding sets by blast
  have q1: "set (rk_extra_file1 c d) \<inter> set (rk_extra_file2 c d) = {}" unfolding rk by blast
  have q2: "set (rk_extra_file1 c d) \<inter> rk_common_keys c d = {}" unfolding rk by blast
  have q3: "set (rk_extra_file2 c d) \<inter> rk_common_keys c d = {}" unfolding rk by blast
  have q4: "set (rk_extra_file1 c d) \<union> set (rk_extra_file2 c d) \<union> rk_common_keys c d
     = set (map fst c) \<union> set (map fst d)" unfolding rk by blast
  have tie: "compare_key_based U headers1 data1 headers2 data2 = Inr res \<longrightarrow>
      (\<exists>row_map1 dup1 row_map2 dup2.
          build_row_map U data1 headers1 KEY_COLUMNS = Inr (row_map1, dup1) \<and>
          build_row_map U data2 headers2 KEY_COLUMNS = Inr (row_map2, dup2) \<and>
          cmp_missing_in_report res = missing_keys row_map1 row_map2 \<and>
          cmp_extra_in_report res = extra_keys row_map1 row_map2 \<and>
          cmp_common_keys res = length (shared_keys row_map1 row_map2))"
    by (auto simp: compare_key_based_def Let_def split: sum.splits prod.splits)
  from p1 p2 p3 p4 q1 q2 q3 q4 tie show ?thesis by (intro conjI)
qed

theorem key_sets_partition_witness:
  "compare_key_based ascii_tables ex_headers ex_data1 ex_headers ex_data2 =
     Inr \<lparr>cmp_matches = 3, cmp_mismatches = 0,
          cmp_missing_in_report = [[lit ''A'', lit ''1'']],
          cmp_extra_in_report = [[lit ''C'', lit ''3'']],
          cmp_duplicates_file1 = [[lit ''A'', lit ''1'']],
          cmp_duplicates_file2 = [],
          cmp_mismatch_details = [],
          cmp_common_keys = 1\<rparr> \<and>
   (\<exists>row_map1 dup1 row_map2 dup2.
      build_row_map ascii_tables ex_data1 ex_headers KEY_COLUMNS = Inr (row_map1, dup1) \<and>
      build_row_map ascii_tables ex_data2 ex_headers KEY_COLUMNS = Inr (row_map2, dup2) \<and>
      missing_keys row_map1 row_map2 = [[lit ''A'', lit ''1'']] \<and>
      extra_keys row_map1 row_map2 = [[lit ''C'', lit ''3'']] \<and>
      length (shared_keys row_map1 row_map2) = 1)"
proof -
  have e1: "build_row_map ascii_tables ex_data1 ex_headers KEY_COLUMNS =
    Inr ([([lit ''A'', lit ''1''], [lit ''A'', lit ''1'', lit ''x'']),
          ([lit ''B'', lit ''2''], [lit ''B'', lit ''2'', lit ''y''])], [[lit ''A'', lit ''1'']])"
    by (simp add: ex_data1_def ex_headers_def key_eval str_eval Let_def)
  have e2: "build_row_map ascii_tables ex_data2 ex_headers KEY_COLUMNS =
    Inr ([([lit ''C'', lit ''3''], [lit ''C'', lit ''3'', lit ''w'']),
          ([lit ''B'', lit ''2''], [lit ''B'', lit ''2'', lit ''y''])], [])"
    by (simp add: ex_data2_def ex_headers_def key_eval str_eval Let_def)
  have e3: "compare_key_based ascii_tables ex_headers ex_data1 ex_headers ex_data2 =
     Inr \<lparr>cmp_matches = 3, cmp_mismatches = 0,
          cmp_missing_in_report = [[lit ''A'', lit ''1'']],
          cmp_extra_in_report = [[lit ''C'', lit ''3'']],
          cmp_duplicates_file1 = [[lit ''A'', lit ''1'']],
          cmp_duplicates_file2 = [],
          cmp_mismatch_details = [],
          cmp_common_keys = 1\<rparr>"
    unfolding compare_key_based_def e1 e2
    by (simp add: key_list_eval ex_headers_def key_eval str_eval Let_def)
  define res where "res = \<lparr>cmp_matches = 3, cmp_mismatches = 0,
          cmp_missing_in_report = [[lit ''A'', lit ''1'']],
          cmp_extra_in_report = [[lit ''C'', lit ''3'']],
          cmp_duplicates_file1 = [[lit ''A'', lit ''1'']],
          cmp_duplicates_file2 = [],
          cmp_mismatch_details = [],
          cmp_common_keys = 1\<rparr>"
  have fields: "cmp_missing_in_report res = [[lit ''A'', lit ''1'']]"
    "cmp_extra_in_report res = [[lit ''C'', lit ''3'']]" "cmp_common_keys res = 1"
    by (simp_all add: res_def)
  from e3 have e3': "compare_key_based ascii_tables ex_headers ex_data1 ex_headers ex_data2 = Inr res"
    by (simp only: res_def)
  from key_sets_partition [where U = ascii_tables and ?headers1.0 = ex_headers
      and ?data1.0 = ex_data1 and ?headers2.0 = ex_headers and ?data2.0 = ex_data2 and res = res] e3'
  obtain row_map1 dup1 row_map2 dup2 where
    "build_row_map ascii_tables ex_data1 ex_headers KEY_COLUMNS = Inr (row_map1, dup1)"
    "build_row_map ascii_tables ex_data2 ex_headers KEY_COLUMNS = Inr (row_map2, dup2)"
    "cmp_missing_in_report res = missing_keys row_map1 row_map2"
    "cmp_extra_in_report res = extra_keys row_map1 row_map2"
    "cmp_common_keys res = length (shared_keys row_map1 row_map2)"
    by blast
  with fields have "\<exists>row_map1 dup1 row_map2 dup2.
      build_row_map ascii_tables ex_data1 ex_headers KEY_COLUMNS = Inr (row_map1, dup1) \<and>
      build_row_map ascii_tables ex_data2 ex_headers KEY_COLUMNS = Inr (row_map2, dup2) \<and>
      missing_keys row_map1 row_map2 = [[lit ''A'', lit ''1'']] \<and>
      extra_keys row_map1 row_map2 = [[lit ''C'', lit ''3'']] \<and>
      length (shared_keys row_map1 row_map2) = 1"
    by metis
  with e3 show ?thesis by (intro conjI)
qed

section \<open>Properties of the record extractors\<close>

text \<open>Rules that evaluate \<open>float\<close> and the extractor on concrete cells.\<close>

lemmas float_eval = py_float_def c_isspace_def parse_float_text_def
  split_sign_def ascii_lower_def parse_decimal_def is_ascii_digit_def parse_exponent_def digits_value_def

lemmas dv_eval = is_number_def to_float_rbu_def numeric_cols_def row_channel_def dict_at_def
  forward_fill_def detect_sections_def find_tables_def find_tables_from.simps table_end.simps
  table_records_def extract_records_def

lemma numeric_cols_bound: "c \<in> set (numeric_cols U line) \<Longrightarrow> c < length line"
  by (simp add: numeric_cols_def)

lemma row_channel_value:
  assumes "numeric_cols U line \<noteq> []"
  shows "row_channel U line =
     Inr (strip (if hd (numeric_cols U line) = 0 then last line
                 else line ! (hd (numeric_cols U line) - 1)))"
proof -
  define h where "h = hd (numeric_cols U line)"
  from assms have "h \<in> set (numeric_cols U line)" by (simp add: h_def)
  then have hlt: "h < length line" by (rule numeric_cols_bound)
  then have ne: "line \<noteq> []" by auto
  show ?thesis
  proof (cases "h = 0")
    case True
    have "py_get line (int h - 1) = Inr (line ! (length line - 1))"
      using True hlt by (cases line) (simp_all add: py_get_def nat_diff_distrib')
    then show ?thesis
      using True ne by (simp add: row_channel_def h_def [symmetric] last_conv_nth)
  next
    case False
    then have "py_get line (int h - 1) = Inr (line ! (h - 1))"
      using hlt by (auto simp: py_get_def nat_diff_distrib')
    then show ?thesis
      using False by (simp add: row_channel_def h_def [symmetric])
  qed
qed

lemma row_records_channel:
  "row_records U source sm g sg p channel line cs = Inr recs \<Longrightarrow>
   \<forall>rec\<in>set recs. dv_channel rec = channel"
  by (induction cs arbitrary: recs) (auto split: sum.splits)

lemma row_records_length:
  "row_records U source sm g sg p channel line cs = Inr recs \<Longrightarrow> length recs = length cs"
  by (induction cs arbitrary: recs) (auto split: sum.splits)

text \<open>
  Claim C10. In \<open>extract_records\<close> the channel of a data row is
  \<open>row[nums[0] - 1].strip()\<close>. For a row with a numeric cell the lookup never raises:
  the first numeric column is \<open>0\<close> exactly when the first cell is numeric, and then the
  index is \<open>-1\<close> and the channel is the stripped last cell of the row, not the empty
  string; otherwise it is the cell left of the first numeric one. Every record of such
  a row carries that channel. The extractor of rateBuildUp/rbu.py has the same
  expression on \<open>str\<close> of the cell.
\<close>

theorem channel_wraps_to_last_cell:
  assumes "numeric_cols U line \<noteq> []"
  shows "(hd (numeric_cols U line) = 0 \<longleftrightarrow> is_number U (line ! 0)) \<and>
     (hd (numeric_cols U line) = 0 \<longrightarrow> row_channel U line = Inr (strip (last line))) \<and>
     (0 < hd (numeric_cols U line) \<longrightarrow>
        row_channel U line = Inr (strip (line ! (hd (numeric_cols U line) - 1)))) \<and>
     (\<forall>grid r source sm g sg p recs.
        py_get grid (int r) = Inr line \<and> hd (numeric_cols U line) = 0 \<and>
        data_rows_records U grid source sm g sg p [r] = Inr recs \<longrightarrow>
        length recs = length (numeric_cols U line) \<and>
        (\<forall>rec\<in>set recs. dv_channel rec = strip (last line)))"
proof -
  note ch = row_channel_value [OF assms]
  from assms have "hd (numeric_cols U line) \<in> set (numeric_cols U line)" by simp
  then have hlt: "hd (numeric_cols U line) < length line" by (rule numeric_cols_bound)
  have first: "hd (numeric_cols U line) = 0 \<longleftrightarrow> is_number U (line ! 0)"
  proof
    assume "hd (numeric_cols U line) = 0"
    with assms have "0 \<in> set (numeric_cols U line)" by (metis hd_in_set)
    then show "is_number U (line ! 0)" by (simp add: numeric_cols_def)
  next
    assume n: "is_number U (line ! 0)"
    from hlt have "0 < length line" by (cases line) simp_all
    then have "[0..<length line] = 0 # [1..<length line]" by (simp add: upt_conv_Cons)
    with n show "hd (numeric_cols U line) = 0" by (simp add: numeric_cols_def)
  qed
  have recs: "length recs = length (numeric_cols U line) \<and>
        (\<forall>rec\<in>set recs. dv_channel rec = strip (last line))"
    if "py_get grid (int r) = Inr line" "hd (numeric_cols U line) = 0"
      "data_rows_records U grid source sm g sg p [r] = Inr recs"
    for grid r source sm g sg p recs
  proof -
    from that(2) ch have c: "row_channel U line = Inr (strip (last line))" by simp
    from that(1,3) assms c
    have "row_records U source sm g sg p (strip (last line)) line (numeric_cols U line) = Inr recs"
      by (auto split: sum.splits)
    then show ?thesis using row_records_channel [of U source sm g sg p "strip (last line)" line "numeric_cols U line" recs]
        row_records_length [of U source sm g sg p "strip (last line)" line "numeric_cols U line" recs]
      by simp
  qed
  from ch first recs show ?thesis by auto
qed

theorem channel_wraps_to_last_cell_witness:
  "numeric_cols ascii_tables row_numeric_first = [0] \<and>
   row_channel ascii_tables row_numeric_first = Inr (lit ''Retail'')"
proof -
  have nums: "numeric_cols ascii_tables row_numeric_first = [0]"
    by (simp add: row_numeric_first_def numeric_cols_def is_number_def float_eval ascii_tables_def
        lit_def Let_def upt_conv_Cons)
  then have ne: "numeric_cols ascii_tables row_numeric_first \<noteq> []" by simp
  from channel_wraps_to_last_cell [OF ne] nums
  have "row_channel ascii_tables row_numeric_first = Inr (strip (last row_numeric_first))"
    by simp
  with nums show ?thesis by (simp add: row_numeric_first_def str_eval)
qed

section \<open>Properties of the label rows and the header scan\<close>

lemmas classify_eval = looks_numeric_def grouped_number_def plain_number_def currency_number_def
  opt_sign_def num_tail_def is_digit_def is_ascii_digit_def after_groups.simps looks_alpha_def
  is_alpha_def

lemmas label_eval = forward_fill_label_rows_def group_path_for_col_def

lemma label_rows_loop_filter:
  "label_rows_loop U grid left right rs = Inr rows \<Longrightarrow>
   map Inr rows = map (filled_row grid left right) (filter (is_label_row U grid left right) rs)"
proof (induction rs arbitrary: rows)
  case Nil
  then show ?case by simp
next
  case (Cons r rs)
  then show ?case
    by (auto simp: is_label_row_def filled_row_def split: sum.splits if_splits)
qed

lemma header_scan_takeWhile:
  "header_scan U grid rs hs0 = Inr (hs, ds) \<Longrightarrow>
   hs = hs0 @ takeWhile (\<lambda>r. \<not> row_has_number U grid r) rs \<and>
   ds = List.find (row_has_number U grid) rs"
proof (induction rs arbitrary: hs0)
  case Nil
  then show ?case by simp
next
  case (Cons r rs)
  from Cons.prems obtain line where line: "py_get grid (int r) = Inr line"
    by (cases "py_get grid (int r)") simp_all
  show ?case
  proof (cases "list_ex (is_number U) line")
    case True
    with line have "row_has_number U grid r" by (simp add: row_has_number_def)
    moreover from Cons.prems line True have "hs = hs0" "ds = Some r" by simp_all
    ultimately show ?thesis by simp
  next
    case False
    with line have n: "\<not> row_has_number U grid r" by (simp add: row_has_number_def)
    from Cons.prems line False have "header_scan U grid rs (hs0 @ [r]) = Inr (hs, ds)" by simp
    from Cons.IH [OF this] n show ?thesis by simp
  qed
qed

lemma late_label_rows:
  "forward_fill_label_rows ascii_tables grid_late_label 0 2 0 1 =
     Inr [[lit ''G'', lit ''H''], [lit ''x'', lit ''3'']]"
  by (simp add: grid_late_label_def label_eval classify_eval str_eval grid_eval ascii_tables_def)

lemma minority_scan: "header_scan ascii_tables grid_minority [0, 1, 2] [] = Inr ([0], Some 1)"
  by (simp add: grid_minority_def is_number_def float_eval str_eval grid_eval ascii_tables_def)

text \<open>
  Claim C4, amended. \<open>forward_fill_label_rows\<close> returns, in the order of the rows, the
  forward fill of every row of \<open>top .. bottom\<close> that has an alphabetic character within
  \<open>left .. right\<close>, and of no other row: the loop has no stop, so the position of a row
  relative to the rows of numbers plays no part. The header scan of \<open>extract_records\<close>
  (DataValidation_RBU) takes as header rows all the rows before the first row with at
  least one cell that parses as a number, whether they hold letters or not, and that
  row is \<open>data_start\<close>.
\<close>

theorem label_rows_all_alpha_rows:
  "(forward_fill_label_rows U grid top_row bottom left right = Inr rows \<longrightarrow>
      map Inr rows =
        map (filled_row grid left right)
          (filter (is_label_row U grid left right) [top_row..bottom])) \<and>
   (header_scan U grid rs [] = Inr (hs, ds) \<longrightarrow>
      hs = takeWhile (\<lambda>r. \<not> row_has_number U grid r) rs \<and>
      ds = List.find (row_has_number U grid) rs)"
  using label_rows_loop_filter [of U grid left right "[top_row..bottom]" rows]
    header_scan_takeWhile [of U grid rs "[]" hs ds]
  by (simp add: forward_fill_label_rows_def)

theorem label_rows_all_alpha_rows_witness:
  "map (filled_row grid_late_label 0 1)
     (filter (is_label_row ascii_tables grid_late_label 0 1) [0..2]) =
     [Inr [lit ''G'', lit ''H''], Inr [lit ''x'', lit ''3'']] \<and>
   takeWhile (\<lambda>r. \<not> row_has_number ascii_tables grid_minority r) [0, 1, 2] = [0] \<and>
   List.find (row_has_number ascii_tables grid_minority) [0, 1, 2] = Some 1"
  using label_rows_all_alpha_rows [of ascii_tables grid_late_label 0 2 0 1
      "[[lit ''G'', lit ''H''], [lit ''x'', lit ''3'']]" "[]" "[]" None]
    label_rows_all_alpha_rows [of ascii_tables grid_minority 0 0 0 0 "[]" "[0, 1, 2]" "[0]" "Some 1"]
    late_label_rows minority_scan
  by simp

text \<open>
  The claim as stated fails. In \<open>grid_late_label\<close> every cell of row 1 looks numeric,
  yet row 2, below it, has the letter \<open>x\<close> and is a label row: it is the second tier
  of the group path of column 0. In \<open>grid_minority\<close> the header scan of
  \<open>extract_records\<close> keeps row 0, which has no letter, as a header row and stops at row
  1, where one cell of three is a number.
\<close>

theorem label_scan_counterexample:
  "list_all (looks_numeric ascii_tables) (grid_late_label ! 1) \<and>
   forward_fill_label_rows ascii_tables grid_late_label 0 2 0 1 =
     Inr [[lit ''G'', lit ''H''], [lit ''x'', lit ''3'']] \<and>
   group_path_for_col [[lit ''G'', lit ''H''], [lit ''x'', lit ''3'']] 0 0 = [lit ''G'', lit ''x''] \<and>
   map (looks_alpha ascii_tables) (grid_minority ! 0) = [False, False, False] \<and>
   map (is_number ascii_tables) (grid_minority ! 1) = [False, False, True] \<and>
   header_scan ascii_tables grid_minority [0, 1, 2] [] = Inr ([0], Some 1)"
  by (simp add: grid_late_label_def grid_minority_def label_eval classify_eval is_number_def
      float_eval str_eval grid_eval ascii_tables_def)

end
